theory Spec2Isabelle
  imports Main "HOL-Library.Sublist"
begin

section \<open>Data model\<close>

text \<open>
  The package \<^verbatim>\<open>pipes\<close> (file \<^verbatim>\<open>pipes.go\<close>) runs one external command, or several commands
  chained by pipes, through Go's \<^verbatim>\<open>os/exec\<close>.  The commands are \<^verbatim>\<open>*exec.Cmd\<close> pointers, so the
  descriptors live in a store and a pipeline is a list of addresses (the same address may
  occur twice in a slice).  Pointers are taken to be non-nil.

  An \<^verbatim>\<open>io.Reader\<close> or \<^verbatim>\<open>io.Writer\<close> value is a \<open>stream\<close>; the nil interface is \<open>None\<close> of
  \<open>stream option\<close>.  \<open>Discard\<close> is \<^verbatim>\<open>ioutil.Discard\<close>, \<open>Extern n\<close> a reader or writer owned by
  the caller, \<open>PipeReader p\<close> and \<open>PipeWriter p\<close> the two ends of the \<open>p\<close>-th pipe made by
  \<^verbatim>\<open>StdoutPipe\<close>, and \<open>StderrBuffer\<close>, \<open>StdoutBuffer\<close> the private \<^verbatim>\<open>bytes.Buffer\<close> variables
  \<^verbatim>\<open>stderr\<close> and \<^verbatim>\<open>stdout\<close> of the capturing variants.
\<close>

type_synonym addr = nat

datatype stream = Discard | Extern nat | PipeReader nat | PipeWriter nat
  | StderrBuffer | StdoutBuffer

text \<open>
  The \<^verbatim>\<open>*os.Process\<close> handle held in \<^verbatim>\<open>cmd.Process\<close>: a process that was started and not yet
  waited for is \<open>Running\<close> (it may have exited already, unnoticed), \<open>Killed\<close> once it got
  \<^verbatim>\<open>SIGKILL\<close>, and \<open>Reaped\<close> once a wait on it has returned.
\<close>

datatype process = Running | Killed | Reaped

record cmd =
  Path :: string
  Stdin :: "stream option"
  Stdout :: "stream option"
  Stderr :: "stream option"
  Process :: "process option"

text \<open>
  Every call into \<^verbatim>\<open>os/exec\<close> is recorded, with the error it returned where the code looks
  at it (\<open>None\<close> is the nil error, \<open>Some t\<close> an error whose \<^verbatim>\<open>Error()\<close> text is \<open>t\<close>).
\<close>

datatype event =
    EvStdoutPipe addr "string option"
  | EvStart addr "string option"
  | EvWait addr "string option"
  | EvKill addr
  | EvProcWait addr

record world =
  heap :: "addr \<Rightarrow> cmd"
  trace :: "event list"
  pipes :: nat
  written :: "stream \<Rightarrow> string"

text \<open>
  The operating system is a parameter.  It decides, from the whole state at the moment of
  the call, whether \<^verbatim>\<open>StdoutPipe\<close>, \<^verbatim>\<open>Start\<close> and \<^verbatim>\<open>Wait\<close> fail and with which error text, and
  which bytes reach which writer while a call is in progress.  Every call is assumed to
  return.
\<close>

record os =
  pipe_err :: "world \<Rightarrow> addr \<Rightarrow> string option"
  start_err :: "world \<Rightarrow> addr \<Rightarrow> string option"
  wait_err :: "world \<Rightarrow> addr \<Rightarrow> string option"
  emits :: "world \<Rightarrow> event \<Rightarrow> stream \<Rightarrow> string"

section \<open>The calls into os/exec\<close>

definition os_call :: "os \<Rightarrow> event \<Rightarrow> world \<Rightarrow> world" where
  "os_call sys ev w =
     w\<lparr>trace := trace w @ [ev], written := (\<lambda>s. written w s @ emits sys w ev s)\<rparr>"

definition upd_cmd :: "addr \<Rightarrow> (cmd \<Rightarrow> cmd) \<Rightarrow> world \<Rightarrow> world" where
  "upd_cmd a f w = w\<lparr>heap := (heap w)(a := f (heap w a))\<rparr>"

definition set_Stdin :: "addr \<Rightarrow> stream option \<Rightarrow> world \<Rightarrow> world" where
  "set_Stdin a s = upd_cmd a (\<lambda>c. c\<lparr>Stdin := s\<rparr>)"

definition set_Stdout :: "addr \<Rightarrow> stream option \<Rightarrow> world \<Rightarrow> world" where
  "set_Stdout a s = upd_cmd a (\<lambda>c. c\<lparr>Stdout := s\<rparr>)"

definition set_Stderr :: "addr \<Rightarrow> stream option \<Rightarrow> world \<Rightarrow> world" where
  "set_Stderr a s = upd_cmd a (\<lambda>c. c\<lparr>Stderr := s\<rparr>)"

text \<open>
  \<^verbatim>\<open>cmd.StdoutPipe()\<close>: on success the command's \<^verbatim>\<open>Stdout\<close> becomes the write end of a new
  pipe and the read end is returned; on failure the reader returned is nil.
\<close>

definition cmd_StdoutPipe :: "os \<Rightarrow> addr \<Rightarrow> world \<Rightarrow> (stream option \<times> string option) \<times> world" where
  "cmd_StdoutPipe sys a w =
     (case pipe_err sys w a of
        Some e \<Rightarrow> ((None, Some e), os_call sys (EvStdoutPipe a (Some e)) w)
      | None \<Rightarrow>
          ((Some (PipeReader (pipes w)), None),
           (set_Stdout a (Some (PipeWriter (pipes w))) (os_call sys (EvStdoutPipe a None) w))
             \<lparr>pipes := Suc (pipes w)\<rparr>))"

text \<open>\<^verbatim>\<open>cmd.Start()\<close>: on success \<^verbatim>\<open>cmd.Process\<close> is the handle of the new process.\<close>

definition cmd_Start :: "os \<Rightarrow> addr \<Rightarrow> world \<Rightarrow> string option \<times> world" where
  "cmd_Start sys a w =
     (case start_err sys w a of
        Some e \<Rightarrow> (Some e, os_call sys (EvStart a (Some e)) w)
      | None \<Rightarrow>
          (None, upd_cmd a (\<lambda>c. c\<lparr>Process := Some Running\<rparr>) (os_call sys (EvStart a None) w)))"

text \<open>
  \<^verbatim>\<open>cmd.Wait()\<close>: returns once the process has exited and has been reaped; the error
  reports a non-zero exit status, a signal or a failed copy.
\<close>

definition cmd_Wait :: "os \<Rightarrow> addr \<Rightarrow> world \<Rightarrow> string option \<times> world" where
  "cmd_Wait sys a w =
     (let e = wait_err sys w a
      in (e, upd_cmd a (\<lambda>c. c\<lparr>Process := map_option (\<lambda>_. Reaped) (Process c)\<rparr>)
               (os_call sys (EvWait a e) w)))"

text \<open>
  \<^verbatim>\<open>Process.Signal(syscall.SIGKILL)\<close> terminates a process that is still there and does
  nothing to one already waited for; \<^verbatim>\<open>Process.Wait()\<close> reaps.  The code drops what both
  return.
\<close>

definition proc_Signal_KILL :: "os \<Rightarrow> addr \<Rightarrow> world \<Rightarrow> world" where
  "proc_Signal_KILL sys a w =
     upd_cmd a (\<lambda>c. c\<lparr>Process := map_option (\<lambda>p. if p = Running then Killed else p) (Process c)\<rparr>)
       (os_call sys (EvKill a) w)"

definition proc_Wait :: "os \<Rightarrow> addr \<Rightarrow> world \<Rightarrow> world" where
  "proc_Wait sys a w =
     upd_cmd a (\<lambda>c. c\<lparr>Process := map_option (\<lambda>_. Reaped) (Process c)\<rparr>)
       (os_call sys (EvProcWait a) w)"

text \<open>\<^verbatim>\<open>fmt.Errorf("%s %s", cmd.Path, err.Error())\<close>\<close>

definition errorf_path :: "string \<Rightarrow> string \<Rightarrow> string" where
  "errorf_path p e = p @ '' '' @ e"

text \<open>\<^verbatim>\<open>fmt.Errorf("%s - %s", err.Error(), stderr.String())\<close>\<close>

definition errorf_captured :: "string \<Rightarrow> string \<Rightarrow> string" where
  "errorf_captured e t = e @ '' - '' @ t"

text \<open>A \<^verbatim>\<open>var b bytes.Buffer\<close> declaration: the buffer starts empty.\<close>

definition new_buffer :: "stream \<Rightarrow> world \<Rightarrow> world" where
  "new_buffer b w = w\<lparr>written := (written w)(b := [])\<rparr>"

definition or_discard :: "stream option \<Rightarrow> stream" where
  "or_discard s = (case s of None \<Rightarrow> Discard | Some x \<Rightarrow> x)"

section \<open>Single commands\<close>

definition Exec :: "os \<Rightarrow> addr \<Rightarrow> stream option \<Rightarrow> stream option \<Rightarrow> stream option \<Rightarrow> world
    \<Rightarrow> string option \<times> world" where
  "Exec sys cmd stdin stdout stderr w =
     (let w1 = (if stdin \<noteq> None then set_Stdin cmd stdin w else w);
          stdout' = or_discard stdout;
          stderr' = or_discard stderr;
          w2 = set_Stdout cmd (Some stdout') w1;
          w3 = set_Stderr cmd (Some stderr') w2
      in case cmd_Start sys cmd w3 of
           (Some e, w4) \<Rightarrow> (Some (errorf_path (Path (heap w4 cmd)) e), w4)
         | (None, w4) \<Rightarrow>
             (case cmd_Wait sys cmd w4 of
                (Some e, w5) \<Rightarrow> (Some (errorf_path (Path (heap w5 cmd)) e), w5)
              | (None, w5) \<Rightarrow> (None, w5)))"

definition ExecE :: "os \<Rightarrow> addr \<Rightarrow> stream option \<Rightarrow> stream option \<Rightarrow> world
    \<Rightarrow> string option \<times> world" where
  "ExecE sys cmd stdin stdout w =
     (case Exec sys cmd stdin stdout (Some StderrBuffer) (new_buffer StderrBuffer w) of
        (Some e, w') \<Rightarrow> (Some (errorf_captured e (written w' StderrBuffer)), w')
      | (None, w') \<Rightarrow> (None, w'))"

text \<open>A byte slice is the list of its bytes; the nil slice is the empty list.\<close>

definition ExecO :: "os \<Rightarrow> addr \<Rightarrow> stream option \<Rightarrow> world
    \<Rightarrow> (string \<times> string option) \<times> world" where
  "ExecO sys cmd stdin w =
     (case ExecE sys cmd stdin (Some StdoutBuffer) (new_buffer StdoutBuffer w) of
        (Some e, w') \<Rightarrow> (([], Some e), w')
      | (None, w') \<Rightarrow> ((written w' StdoutBuffer, None), w'))"

definition ExecStdin :: "os \<Rightarrow> addr \<Rightarrow> stream option \<Rightarrow> world \<Rightarrow> string option \<times> world" where
  "ExecStdin sys cmd stdin w = ExecE sys cmd stdin None w"

definition ExecStdout :: "os \<Rightarrow> addr \<Rightarrow> stream option \<Rightarrow> world \<Rightarrow> string option \<times> world" where
  "ExecStdout sys cmd stdout w = ExecE sys cmd None stdout w"

section \<open>Pipelines\<close>

text \<open>
  The three loops of \<^verbatim>\<open>ExecPipeline\<close> share the local variable \<^verbatim>\<open>err\<close>, which the deferred
  closures read when the function returns.  Each loop takes the value of \<^verbatim>\<open>err\<close> and gives
  back the value returned from inside the loop (\<open>None\<close> when the loop ran to its end),
  the new value of \<^verbatim>\<open>err\<close> and the new state.

  \<^verbatim>\<open>for i, cmd := range cmds[:last]\<close>: the list iterated is the fourth argument, \<open>i\<close> the
  fifth.
\<close>

fun pipe_loop :: "os \<Rightarrow> addr list \<Rightarrow> stream \<Rightarrow> addr list \<Rightarrow> nat \<Rightarrow> string option \<Rightarrow> world
    \<Rightarrow> string option \<times> string option \<times> world" where
  "pipe_loop sys cmds stderr [] i err w = (None, err, w)"
| "pipe_loop sys cmds stderr (cmd # rest) i err w =
     (case cmd_StdoutPipe sys cmd w of
        ((r, err'), w1) \<Rightarrow>
          (let w2 = set_Stdin (cmds ! (i + 1)) r w1
           in case err' of
                Some e \<Rightarrow> (Some (errorf_path (Path (heap w2 cmd)) e), err', w2)
              | None \<Rightarrow> pipe_loop sys cmds stderr rest (i + 1) err' (set_Stderr cmd (Some stderr) w2)))"

text \<open>
  The start loop also pushes one deferred closure per started command; the closures are
  kept as the list of the commands they captured, the last one deferred first.
\<close>

fun start_loop :: "os \<Rightarrow> addr list \<Rightarrow> string option \<Rightarrow> addr list \<Rightarrow> world
    \<Rightarrow> string option \<times> string option \<times> addr list \<times> world" where
  "start_loop sys [] err ds w = (None, err, ds, w)"
| "start_loop sys (cmd # rest) err ds w =
     (case cmd_Start sys cmd w of
        (Some e, w1) \<Rightarrow> (Some (errorf_path (Path (heap w1 cmd)) e), Some e, ds, w1)
      | (None, w1) \<Rightarrow> start_loop sys rest None (cmd # ds) w1)"

fun wait_loop :: "os \<Rightarrow> addr list \<Rightarrow> string option \<Rightarrow> world
    \<Rightarrow> string option \<times> string option \<times> world" where
  "wait_loop sys [] err w = (None, err, w)"
| "wait_loop sys (cmd # rest) err w =
     (case cmd_Wait sys cmd w of
        (Some e, w1) \<Rightarrow> (Some (errorf_path (Path (heap w1 cmd)) e), Some e, w1)
      | (None, w1) \<Rightarrow> wait_loop sys rest None w1)"

text \<open>
  The deferred closure
  \<^verbatim>\<open>if err != nil && kill.Process != nil { kill.Process.Signal(syscall.SIGKILL); kill.Process.Wait() }\<close>
  with \<^verbatim>\<open>err\<close> as it is when the function returns.
\<close>

definition deferred_kill :: "os \<Rightarrow> string option \<Rightarrow> addr \<Rightarrow> world \<Rightarrow> world" where
  "deferred_kill sys err kill w =
     (if err \<noteq> None \<and> Process (heap w kill) \<noteq> None
      then proc_Wait sys kill (proc_Signal_KILL sys kill w)
      else w)"

fun run_deferred :: "os \<Rightarrow> string option \<Rightarrow> addr list \<Rightarrow> world \<Rightarrow> world" where
  "run_deferred sys err [] w = w"
| "run_deferred sys err (kill # ds) w = run_deferred sys err ds (deferred_kill sys err kill w)"

text \<open>Lines 94 to 116: the streams are attached and the pipes made.\<close>

definition connect :: "os \<Rightarrow> addr list \<Rightarrow> stream option \<Rightarrow> stream option \<Rightarrow> stream option
    \<Rightarrow> world \<Rightarrow> string option \<times> string option \<times> world" where
  "connect sys cmds stdin stdout stderr w =
     (let w1 = (if stdin \<noteq> None then set_Stdin (cmds ! 0) stdin w else w);
          stdout' = or_discard stdout;
          stderr' = or_discard stderr;
          last = length cmds - 1
      in case pipe_loop sys cmds stderr' (take last cmds) 0 None w1 of
           (Some r, err, w2) \<Rightarrow> (Some r, err, w2)
         | (None, err, w2) \<Rightarrow>
             (None, err,
              set_Stderr (cmds ! last) (Some stderr') (set_Stdout (cmds ! last) (Some stdout') w2)))"

text \<open>Lines 118 to 142: the commands are started and waited for, then the closures run.\<close>

definition run :: "os \<Rightarrow> addr list \<Rightarrow> string option \<Rightarrow> world \<Rightarrow> string option \<times> world" where
  "run sys cmds err w =
     (case start_loop sys cmds err [] w of
        (Some r, err1, ds, w1) \<Rightarrow> (Some r, run_deferred sys err1 ds w1)
      | (None, err1, ds, w1) \<Rightarrow>
          (case wait_loop sys cmds err1 w1 of
             (Some r, err2, w2) \<Rightarrow> (Some r, run_deferred sys err2 ds w2)
           | (None, err2, w2) \<Rightarrow> (None, run_deferred sys err2 ds w2)))"

definition ExecPipeline :: "os \<Rightarrow> addr list \<Rightarrow> stream option \<Rightarrow> stream option \<Rightarrow> stream option
    \<Rightarrow> world \<Rightarrow> string option \<times> world" where
  "ExecPipeline sys cmds stdin stdout stderr w =
     (if length cmds < 1 then (Some ''No commands provided to ExecPipeline'', w)
      else case connect sys cmds stdin stdout stderr w of
             (Some r, err, w1) \<Rightarrow> (Some r, w1)
           | (None, err, w1) \<Rightarrow> run sys cmds err w1)"

definition ExecPipelineE :: "os \<Rightarrow> addr list \<Rightarrow> stream option \<Rightarrow> stream option \<Rightarrow> world
    \<Rightarrow> string option \<times> world" where
  "ExecPipelineE sys cmds stdin stdout w =
     (case ExecPipeline sys cmds stdin stdout (Some StderrBuffer) (new_buffer StderrBuffer w) of
        (Some e, w') \<Rightarrow> (Some (errorf_captured e (written w' StderrBuffer)), w')
      | (None, w') \<Rightarrow> (None, w'))"

definition ExecPipelineO :: "os \<Rightarrow> addr list \<Rightarrow> stream option \<Rightarrow> world
    \<Rightarrow> (string \<times> string option) \<times> world" where
  "ExecPipelineO sys cmds stdin w =
     (case ExecPipelineE sys cmds stdin (Some StdoutBuffer) (new_buffer StdoutBuffer w) of
        (err, w') \<Rightarrow> ((written w' StdoutBuffer, err), w'))"

section \<open>Vocabulary for the properties\<close>

text \<open>
  The calls made between two states, and the shapes a run's calls take: pipes made,
  commands started, commands waited for, and the deferred closures' kill and reap.
\<close>

definition pipes_made :: "addr list \<Rightarrow> event list" where
  "pipes_made as = map (\<lambda>a. EvStdoutPipe a None) as"

definition starts :: "addr list \<Rightarrow> event list" where
  "starts as = map (\<lambda>a. EvStart a None) as"

definition waits :: "addr list \<Rightarrow> event list" where
  "waits as = map (\<lambda>a. EvWait a None) as"

definition kills :: "addr list \<Rightarrow> event list" where
  "kills as = concat (map (\<lambda>a. [EvKill a, EvProcWait a]) as)"

definition events_since :: "world \<Rightarrow> world \<Rightarrow> event list" where
  "events_since w w' = drop (length (trace w)) (trace w')"

primrec start_calls :: "event list \<Rightarrow> addr list" where
  "start_calls [] = []"
| "start_calls (ev # evs) =
     (case ev of EvStart a e \<Rightarrow> a # start_calls evs | _ \<Rightarrow> start_calls evs)"

primrec wait_calls :: "event list \<Rightarrow> addr list" where
  "wait_calls [] = []"
| "wait_calls (ev # evs) =
     (case ev of EvWait a e \<Rightarrow> a # wait_calls evs | _ \<Rightarrow> wait_calls evs)"

text \<open>
  The wiring of a pipeline \<open>cmds\<close> in the store \<open>h'\<close>, given the caller's streams, the store
  \<open>h\<close> before the call and the number \<open>p\<close> of pipes made before it.
\<close>

definition wired :: "addr list \<Rightarrow> stream option \<Rightarrow> stream option \<Rightarrow> stream option \<Rightarrow> nat
    \<Rightarrow> (addr \<Rightarrow> cmd) \<Rightarrow> (addr \<Rightarrow> cmd) \<Rightarrow> bool" where
  "wired cmds stdin stdout stderr p h h' \<longleftrightarrow>
     (\<forall>i<length cmds - 1.
        Stdout (h' (cmds ! i)) = Some (PipeWriter (p + i)) \<and>
        Stdin (h' (cmds ! (i + 1))) = Some (PipeReader (p + i))) \<and>
     Stdin (h' (cmds ! 0)) = (if stdin \<noteq> None then stdin else Stdin (h (cmds ! 0))) \<and>
     Stdout (h' (cmds ! (length cmds - 1))) =
       Some (case stdout of None \<Rightarrow> Discard | Some s \<Rightarrow> s) \<and>
     (\<forall>i<length cmds.
        Stderr (h' (cmds ! i)) = Some (case stderr of None \<Rightarrow> Discard | Some s \<Rightarrow> s))"

section \<open>Concrete inputs\<close>

text \<open>
  Three commands \<^verbatim>\<open>echo\<close>, \<^verbatim>\<open>tr\<close> and \<^verbatim>\<open>wc\<close> at addresses 0, 1 and 2, with no stream attached and
  not started, and operating systems that do not look at the state.
\<close>

definition w0 :: world where
  "w0 = \<lparr>heap = (\<lambda>a. \<lparr>Path = (if a = 0 then ''echo'' else if a = 1 then ''tr'' else ''wc''),
                        Stdin = None, Stdout = None, Stderr = None, Process = None\<rparr>),
          trace = [], pipes = 0, written = (\<lambda>s. [])\<rparr>"

definition sys_of :: "(addr \<Rightarrow> string option) \<Rightarrow> (addr \<Rightarrow> string option) \<Rightarrow> (addr \<Rightarrow> string option)
    \<Rightarrow> (event \<Rightarrow> stream \<Rightarrow> string) \<Rightarrow> os" where
  "sys_of p s x m =
     \<lparr>pipe_err = (\<lambda>w. p), start_err = (\<lambda>w. s), wait_err = (\<lambda>w. x), emits = (\<lambda>w. m)\<rparr>"

text \<open>Every call succeeds and nothing is written.\<close>

definition sys_ok :: os where
  "sys_ok = sys_of (\<lambda>a. None) (\<lambda>a. None) (\<lambda>a. None) (\<lambda>ev s. [])"

text \<open>The command at address 1 cannot be started.\<close>

definition sys_nostart :: os where
  "sys_nostart =
     sys_of (\<lambda>a. None) (\<lambda>a. if a = 1 then Some ''executable file not found'' else None)
       (\<lambda>a. None) (\<lambda>ev s. [])"

text \<open>
  The command at address 0 writes \<^verbatim>\<open>partial\<close> to the output buffer and \<^verbatim>\<open>boom\<close> to the error
  buffer, and exits with status 1.
\<close>

definition sys_exit1 :: os where
  "sys_exit1 =
     sys_of (\<lambda>a. None) (\<lambda>a. None) (\<lambda>a. if a = 0 then Some ''exit status 1'' else None)
       (\<lambda>ev s. if ev = EvWait 0 (Some ''exit status 1'')
                then (if s = StderrBuffer then ''boom'' else if s = StdoutBuffer then ''partial'' else [])
                else [])"

text \<open>Every call succeeds; the command at address 0 writes \<^verbatim>\<open>hello\<close> to the output buffer.\<close>

definition sys_hello :: os where
  "sys_hello =
     sys_of (\<lambda>a. None) (\<lambda>a. None) (\<lambda>a. None)
       (\<lambda>ev s. if ev = EvWait 0 None \<and> s = StdoutBuffer then ''hello'' else [])"

text \<open>The first pipe cannot be made.\<close>

definition sys_nopipe :: os where
  "sys_nopipe =
     sys_of (\<lambda>a. if a = 0 then Some ''too many open files'' else None) (\<lambda>a. None) (\<lambda>a. None)
       (\<lambda>ev s. [])"

text \<open>
  The guards of \<^verbatim>\<open>os/exec\<close> itself: \<^verbatim>\<open>StdoutPipe\<close> fails on a command whose \<^verbatim>\<open>Stdout\<close> is set,
  \<^verbatim>\<open>Start\<close> on a command that has a process already; nothing else fails and nothing is
  written.
\<close>

definition sys_once :: os where
  "sys_once =
     \<lparr>pipe_err = (\<lambda>w a. if Stdout (heap w a) \<noteq> None then Some ''exec: Stdout already set'' else None),
      start_err = (\<lambda>w a. if Process (heap w a) \<noteq> None then Some ''exec: already started'' else None),
      wait_err = (\<lambda>w a. None),
      emits = (\<lambda>w ev s. [])\<rparr>"

section \<open>Effects of the calls\<close>

lemmas model_defs =
  ExecPipeline_def connect_def run_def cmd_StdoutPipe_def cmd_Start_def cmd_Wait_def
  proc_Wait_def proc_Signal_KILL_def deferred_kill_def os_call_def upd_cmd_def set_Stdin_def
  set_Stdout_def set_Stderr_def or_discard_def errorf_path_def Exec_def ExecE_def ExecO_def
  ExecStdin_def ExecStdout_def ExecPipelineE_def ExecPipelineO_def new_buffer_def
  errorf_captured_def events_since_def Let_def

lemmas input_defs =
  w0_def sys_of_def sys_ok_def sys_nostart_def sys_exit1_def sys_hello_def sys_nopipe_def
  sys_once_def

lemma os_call_sel [simp]:
  "heap (os_call sys ev w) = heap w"
  "trace (os_call sys ev w) = trace w @ [ev]"
  "pipes (os_call sys ev w) = pipes w"
  "written (os_call sys ev w) s = written w s @ emits sys w ev s"
  by (simp_all add: os_call_def)

lemma upd_cmd_sel [simp]:
  "heap (upd_cmd a f w) b = (if b = a then f (heap w a) else heap w b)"
  "trace (upd_cmd a f w) = trace w"
  "pipes (upd_cmd a f w) = pipes w"
  "written (upd_cmd a f w) = written w"
  by (simp_all add: upd_cmd_def)

lemma new_buffer_sel [simp]:
  "heap (new_buffer b w) = heap w"
  "trace (new_buffer b w) = trace w"
  "pipes (new_buffer b w) = pipes w"
  "written (new_buffer b w) s = (if s = b then [] else written w s)"
  by (simp_all add: new_buffer_def)

lemma cmd_Start_effect:
  assumes "cmd_Start sys a w = (e, w')"
  shows "trace w' = trace w @ [EvStart a e]"
    and "pipes w' = pipes w"
    and "Path (heap w' b) = Path (heap w b)"
    and "Stdin (heap w' b) = Stdin (heap w b)"
    and "Stdout (heap w' b) = Stdout (heap w b)"
    and "Stderr (heap w' b) = Stderr (heap w b)"
    and "Process (heap w' b) = (if b = a \<and> e = None then Some Running else Process (heap w b))"
  using assms by (auto simp: cmd_Start_def split: option.splits)

lemma cmd_Wait_effect:
  assumes "cmd_Wait sys a w = (e, w')"
  shows "trace w' = trace w @ [EvWait a e]"
    and "pipes w' = pipes w"
    and "Path (heap w' b) = Path (heap w b)"
    and "Stdin (heap w' b) = Stdin (heap w b)"
    and "Stdout (heap w' b) = Stdout (heap w b)"
    and "Stderr (heap w' b) = Stderr (heap w b)"
    and "Process (heap w' b) =
           (if b = a then map_option (\<lambda>_. Reaped) (Process (heap w b)) else Process (heap w b))"
  using assms by (auto simp: cmd_Wait_def Let_def)

lemma cmd_StdoutPipe_effect:
  assumes "cmd_StdoutPipe sys a w = ((r, e), w')"
  shows "trace w' = trace w @ [EvStdoutPipe a e]"
    and "pipes w' = (if e = None then Suc (pipes w) else pipes w)"
    and "r = (if e = None then Some (PipeReader (pipes w)) else None)"
    and "Path (heap w' b) = Path (heap w b)"
    and "Stdin (heap w' b) = Stdin (heap w b)"
    and "Stdout (heap w' b) =
           (if b = a \<and> e = None then Some (PipeWriter (pipes w)) else Stdout (heap w b))"
    and "Stderr (heap w' b) = Stderr (heap w b)"
    and "Process (heap w' b) = Process (heap w b)"
proof -
  have "e = pipe_err sys w a"
    using assms by (simp add: cmd_StdoutPipe_def split: option.splits)
  then show "trace w' = trace w @ [EvStdoutPipe a e]"
    and "pipes w' = (if e = None then Suc (pipes w) else pipes w)"
    and "r = (if e = None then Some (PipeReader (pipes w)) else None)"
    and "Path (heap w' b) = Path (heap w b)"
    and "Stdin (heap w' b) = Stdin (heap w b)"
    and "Stdout (heap w' b) =
           (if b = a \<and> e = None then Some (PipeWriter (pipes w)) else Stdout (heap w b))"
    and "Stderr (heap w' b) = Stderr (heap w b)"
    and "Process (heap w' b) = Process (heap w b)"
    using assms by (cases "pipe_err sys w a"; auto simp: cmd_StdoutPipe_def set_Stdout_def)+
qed

lemma set_Stdin_sel [simp]:
  "trace (set_Stdin a s w) = trace w"
  "pipes (set_Stdin a s w) = pipes w"
  "written (set_Stdin a s w) = written w"
  "Path (heap (set_Stdin a s w) b) = Path (heap w b)"
  "Stdin (heap (set_Stdin a s w) b) = (if b = a then s else Stdin (heap w b))"
  "Stdout (heap (set_Stdin a s w) b) = Stdout (heap w b)"
  "Stderr (heap (set_Stdin a s w) b) = Stderr (heap w b)"
  "Process (heap (set_Stdin a s w) b) = Process (heap w b)"
  by (simp_all add: set_Stdin_def)

lemma set_Stdout_sel [simp]:
  "trace (set_Stdout a s w) = trace w"
  "pipes (set_Stdout a s w) = pipes w"
  "written (set_Stdout a s w) = written w"
  "Path (heap (set_Stdout a s w) b) = Path (heap w b)"
  "Stdin (heap (set_Stdout a s w) b) = Stdin (heap w b)"
  "Stdout (heap (set_Stdout a s w) b) = (if b = a then s else Stdout (heap w b))"
  "Stderr (heap (set_Stdout a s w) b) = Stderr (heap w b)"
  "Process (heap (set_Stdout a s w) b) = Process (heap w b)"
  by (simp_all add: set_Stdout_def)

lemma set_Stderr_sel [simp]:
  "trace (set_Stderr a s w) = trace w"
  "pipes (set_Stderr a s w) = pipes w"
  "written (set_Stderr a s w) = written w"
  "Path (heap (set_Stderr a s w) b) = Path (heap w b)"
  "Stdin (heap (set_Stderr a s w) b) = Stdin (heap w b)"
  "Stdout (heap (set_Stderr a s w) b) = Stdout (heap w b)"
  "Stderr (heap (set_Stderr a s w) b) = (if b = a then s else Stderr (heap w b))"
  "Process (heap (set_Stderr a s w) b) = Process (heap w b)"
  by (simp_all add: set_Stderr_def)

lemma deferred_kill_nil [simp]: "deferred_kill sys None a w = w"
  by (simp add: deferred_kill_def)

lemma deferred_kill_frame [simp]:
  "pipes (deferred_kill sys err a w) = pipes w"
  "Path (heap (deferred_kill sys err a w) b) = Path (heap w b)"
  "Stdin (heap (deferred_kill sys err a w) b) = Stdin (heap w b)"
  "Stdout (heap (deferred_kill sys err a w) b) = Stdout (heap w b)"
  "Stderr (heap (deferred_kill sys err a w) b) = Stderr (heap w b)"
  by (simp_all add: deferred_kill_def proc_Wait_def proc_Signal_KILL_def)

lemma deferred_kill_effect:
  assumes "err \<noteq> None" and "Process (heap w a) \<noteq> None"
  shows "trace (deferred_kill sys err a w) = trace w @ [EvKill a, EvProcWait a]"
    and "Process (heap (deferred_kill sys err a w) b) =
           (if b = a then Some Reaped else Process (heap w b))"
  using assms by (auto simp: deferred_kill_def proc_Wait_def proc_Signal_KILL_def)

lemma run_deferred_nil [simp]: "run_deferred sys None ds w = w"
  by (induction ds arbitrary: w) simp_all

lemma run_deferred_frame [simp]:
  "pipes (run_deferred sys err ds w) = pipes w"
  "Path (heap (run_deferred sys err ds w) b) = Path (heap w b)"
  "Stdin (heap (run_deferred sys err ds w) b) = Stdin (heap w b)"
  "Stdout (heap (run_deferred sys err ds w) b) = Stdout (heap w b)"
  "Stderr (heap (run_deferred sys err ds w) b) = Stderr (heap w b)"
  by (induction ds arbitrary: w) simp_all

lemma run_deferred_effect:
  assumes "err \<noteq> None" and "\<forall>a\<in>set ds. Process (heap w a) \<noteq> None"
  shows "trace (run_deferred sys err ds w) = trace w @ kills ds \<and>
         (\<forall>b. Process (heap (run_deferred sys err ds w) b) =
           (if b \<in> set ds then Some Reaped else Process (heap w b)))"
  using assms
proof (induction ds arbitrary: w)
  case Nil
  then show ?case by (simp add: kills_def)
next
  case (Cons a ds)
  let ?w1 = "deferred_kill sys err a w"
  have p: "Process (heap w a) \<noteq> None" using Cons.prems by simp
  have k: "trace ?w1 = trace w @ [EvKill a, EvProcWait a]"
    and q: "\<And>b. Process (heap ?w1 b) = (if b = a then Some Reaped else Process (heap w b))"
    using deferred_kill_effect [OF Cons.prems(1) p] by simp_all
  have "\<forall>b\<in>set ds. Process (heap ?w1 b) \<noteq> None"
    using Cons.prems(2) by (simp add: q)
  from Cons.IH [OF Cons.prems(1) this] show ?case
    by (simp add: k q kills_def)
qed

section \<open>The loops\<close>

lemma start_loop_frame:
  assumes "start_loop sys cmds err ds w = (r, err', ds', w')"
  shows "pipes w' = pipes w \<and> Path (heap w' b) = Path (heap w b) \<and>
         Stdin (heap w' b) = Stdin (heap w b) \<and> Stdout (heap w' b) = Stdout (heap w b) \<and>
         Stderr (heap w' b) = Stderr (heap w b)"
  using assms
proof (induction cmds arbitrary: err ds w)
  case Nil
  then show ?case by simp
next
  case (Cons a cmds)
  obtain e w1 where s: "cmd_Start sys a w = (e, w1)" by (cases "cmd_Start sys a w")
  note eff = cmd_Start_effect [OF s]
  show ?case
  proof (cases e)
    case None
    with Cons.prems s have "start_loop sys cmds None (a # ds) w1 = (r, err', ds', w')" by simp
    from Cons.IH [OF this] show ?thesis by (simp add: eff)
  next
    case (Some x)
    with Cons.prems s have "w' = w1" by simp
    then show ?thesis by (simp add: eff)
  qed
qed

lemma start_loop_ok:
  assumes "start_loop sys cmds err ds w = (None, err', ds', w')"
  shows "ds' = rev cmds @ ds \<and> trace w' = trace w @ starts cmds \<and>
         err' = (if cmds = [] then err else None) \<and>
         (\<forall>b. Process (heap w' b) = (if b \<in> set cmds then Some Running else Process (heap w b)))"
  using assms
proof (induction cmds arbitrary: err ds w)
  case Nil
  then show ?case by (simp add: starts_def)
next
  case (Cons a cmds)
  obtain e w1 where s: "cmd_Start sys a w = (e, w1)" by (cases "cmd_Start sys a w")
  note eff = cmd_Start_effect [OF s]
  from Cons.prems s have e: "e = None" by (cases e) simp_all
  with Cons.prems s have "start_loop sys cmds None (a # ds) w1 = (None, err', ds', w')" by simp
  from Cons.IH [OF this] show ?case
    by (auto simp: eff e starts_def)
qed

lemma start_loop_fail:
  assumes "start_loop sys cmds err ds w = (Some t, err', ds', w')"
  shows "\<exists>k e. k < length cmds \<and> t = errorf_path (Path (heap w (cmds ! k))) e \<and> err' = Some e \<and>
           ds' = rev (take k cmds) @ ds \<and>
           trace w' = trace w @ starts (take k cmds) @ [EvStart (cmds ! k) (Some e)] \<and>
           (\<forall>b. Process (heap w' b) =
              (if b \<in> set (take k cmds) then Some Running else Process (heap w b)))"
  using assms
proof (induction cmds arbitrary: err ds w)
  case Nil
  then show ?case by simp
next
  case (Cons a cmds)
  obtain e w1 where s: "cmd_Start sys a w = (e, w1)" by (cases "cmd_Start sys a w")
  note eff = cmd_Start_effect [OF s]
  show ?case
  proof (cases e)
    case None
    with Cons.prems s have "start_loop sys cmds None (a # ds) w1 = (Some t, err', ds', w')" by simp
    from Cons.IH [OF this] obtain k x where k: "k < length cmds"
      and t: "t = errorf_path (Path (heap w1 (cmds ! k))) x" and x: "err' = Some x"
      and d: "ds' = rev (take k cmds) @ a # ds"
      and tr: "trace w' = trace w1 @ starts (take k cmds) @ [EvStart (cmds ! k) (Some x)]"
      and p: "\<forall>b. Process (heap w' b) =
                (if b \<in> set (take k cmds) then Some Running else Process (heap w1 b))"
      by blast
    have "Suc k < length (a # cmds) \<and> t = errorf_path (Path (heap w ((a # cmds) ! Suc k))) x \<and>
          err' = Some x \<and> ds' = rev (take (Suc k) (a # cmds)) @ ds \<and>
          trace w' = trace w @ starts (take (Suc k) (a # cmds)) @ [EvStart ((a # cmds) ! Suc k) (Some x)] \<and>
          (\<forall>b. Process (heap w' b) =
              (if b \<in> set (take (Suc k) (a # cmds)) then Some Running else Process (heap w b)))"
      using k t x d tr p by (auto simp: eff None starts_def)
    then show ?thesis by blast
  next
    case (Some x)
    with Cons.prems s have "t = errorf_path (Path (heap w1 a)) x" "err' = Some x" "ds' = ds" "w' = w1"
      by auto
    then have "0 < length (a # cmds) \<and> t = errorf_path (Path (heap w ((a # cmds) ! 0))) x \<and>
          err' = Some x \<and> ds' = rev (take 0 (a # cmds)) @ ds \<and>
          trace w' = trace w @ starts (take 0 (a # cmds)) @ [EvStart ((a # cmds) ! 0) (Some x)] \<and>
          (\<forall>b. Process (heap w' b) =
              (if b \<in> set (take 0 (a # cmds)) then Some Running else Process (heap w b)))"
      by (simp add: eff Some starts_def)
    then show ?thesis by blast
  qed
qed

lemma wait_loop_frame:
  assumes "wait_loop sys cmds err w = (r, err', w')"
  shows "pipes w' = pipes w \<and> Path (heap w' b) = Path (heap w b) \<and>
         Stdin (heap w' b) = Stdin (heap w b) \<and> Stdout (heap w' b) = Stdout (heap w b) \<and>
         Stderr (heap w' b) = Stderr (heap w b) \<and>
         (Process (heap w b) \<noteq> None \<longrightarrow> Process (heap w' b) \<noteq> None)"
  using assms
proof (induction cmds arbitrary: err w)
  case Nil
  then show ?case by simp
next
  case (Cons a cmds)
  obtain e w1 where s: "cmd_Wait sys a w = (e, w1)" by (cases "cmd_Wait sys a w")
  note eff = cmd_Wait_effect [OF s]
  show ?case
  proof (cases e)
    case None
    with Cons.prems s have "wait_loop sys cmds None w1 = (r, err', w')" by simp
    from Cons.IH [OF this] show ?thesis by (auto simp: eff split: if_splits)
  next
    case (Some x)
    with Cons.prems s have "w' = w1" by simp
    then show ?thesis by (auto simp: eff split: if_splits)
  qed
qed

lemma wait_loop_ok:
  assumes "wait_loop sys cmds err w = (None, err', w')"
  shows "trace w' = trace w @ waits cmds \<and> err' = (if cmds = [] then err else None) \<and>
         (\<forall>b. Process (heap w' b) =
            (if b \<in> set cmds then map_option (\<lambda>_. Reaped) (Process (heap w b))
             else Process (heap w b)))"
  using assms
proof (induction cmds arbitrary: err w)
  case Nil
  then show ?case by (simp add: waits_def)
next
  case (Cons a cmds)
  obtain e w1 where s: "cmd_Wait sys a w = (e, w1)" by (cases "cmd_Wait sys a w")
  note eff = cmd_Wait_effect [OF s]
  from Cons.prems s have e: "e = None" by (cases e) simp_all
  with Cons.prems s have "wait_loop sys cmds None w1 = (None, err', w')" by simp
  from Cons.IH [OF this] show ?case
    by (auto simp: eff e waits_def option.map_comp comp_def)
qed

lemma wait_loop_fail:
  assumes "wait_loop sys cmds err w = (Some t, err', w')"
  shows "\<exists>k e. k < length cmds \<and> t = errorf_path (Path (heap w (cmds ! k))) e \<and> err' = Some e \<and>
           trace w' = trace w @ waits (take k cmds) @ [EvWait (cmds ! k) (Some e)]"
  using assms
proof (induction cmds arbitrary: err w)
  case Nil
  then show ?case by simp
next
  case (Cons a cmds)
  obtain e w1 where s: "cmd_Wait sys a w = (e, w1)" by (cases "cmd_Wait sys a w")
  note eff = cmd_Wait_effect [OF s]
  show ?case
  proof (cases e)
    case None
    with Cons.prems s have "wait_loop sys cmds None w1 = (Some t, err', w')" by simp
    from Cons.IH [OF this] obtain k x where k: "k < length cmds"
      and t: "t = errorf_path (Path (heap w1 (cmds ! k))) x" and x: "err' = Some x"
      and tr: "trace w' = trace w1 @ waits (take k cmds) @ [EvWait (cmds ! k) (Some x)]"
      by blast
    have "Suc k < length (a # cmds) \<and> t = errorf_path (Path (heap w ((a # cmds) ! Suc k))) x \<and>
          err' = Some x \<and>
          trace w' = trace w @ waits (take (Suc k) (a # cmds)) @ [EvWait ((a # cmds) ! Suc k) (Some x)]"
      using k t x tr by (auto simp: eff None waits_def)
    then show ?thesis by blast
  next
    case (Some x)
    with Cons.prems s have "t = errorf_path (Path (heap w1 a)) x" "err' = Some x" "w' = w1"
      by auto
    then have "0 < length (a # cmds) \<and> t = errorf_path (Path (heap w ((a # cmds) ! 0))) x \<and>
          err' = Some x \<and>
          trace w' = trace w @ waits (take 0 (a # cmds)) @ [EvWait ((a # cmds) ! 0) (Some x)]"
      by (simp add: eff Some waits_def)
    then show ?thesis by blast
  qed
qed

lemma pipe_loop_frame:
  assumes "pipe_loop sys cmds se xs i err w = (r, err', w')"
  shows "Path (heap w' b) = Path (heap w b) \<and> Process (heap w' b) = Process (heap w b)"
  using assms
proof (induction xs arbitrary: i err w)
  case Nil
  then show ?case by simp
next
  case (Cons a xs)
  obtain rd e w1 where s: "cmd_StdoutPipe sys a w = ((rd, e), w1)"
    by (cases "cmd_StdoutPipe sys a w") auto
  note eff = cmd_StdoutPipe_effect [OF s]
  show ?case
  proof (cases e)
    case None
    with Cons.prems s have "pipe_loop sys cmds se xs (i + 1) None
        (set_Stderr a (Some se) (set_Stdin (cmds ! (i + 1)) rd w1)) = (r, err', w')"
      by simp
    from Cons.IH [OF this] show ?thesis by (simp add: eff)
  next
    case (Some x)
    with Cons.prems s have "w' = set_Stdin (cmds ! (i + 1)) rd w1" by auto
    then show ?thesis by (simp add: eff)
  qed
qed

lemma pipe_loop_ok:
  assumes "pipe_loop sys cmds se xs i err w = (None, err', w')"
  shows "trace w' = trace w @ pipes_made xs \<and> pipes w' = pipes w + length xs \<and>
         err' = (if xs = [] then err else None)"
  using assms
proof (induction xs arbitrary: i err w)
  case Nil
  then show ?case by (simp add: pipes_made_def)
next
  case (Cons a xs)
  obtain rd e w1 where s: "cmd_StdoutPipe sys a w = ((rd, e), w1)"
    by (cases "cmd_StdoutPipe sys a w") auto
  note eff = cmd_StdoutPipe_effect [OF s]
  from Cons.prems s have e: "e = None" by (cases e) auto
  with Cons.prems s have "pipe_loop sys cmds se xs (i + 1) None
      (set_Stderr a (Some se) (set_Stdin (cmds ! (i + 1)) rd w1)) = (None, err', w')"
    by simp
  from Cons.IH [OF this] show ?case
    by (simp add: eff e pipes_made_def)
qed

lemma pipe_loop_fail:
  assumes "pipe_loop sys cmds se xs i err w = (Some t, err', w')"
  shows "\<exists>k e. k < length xs \<and> t = errorf_path (Path (heap w (xs ! k))) e \<and> err' = Some e \<and>
           trace w' = trace w @ pipes_made (take k xs) @ [EvStdoutPipe (xs ! k) (Some e)]"
  using assms
proof (induction xs arbitrary: i err w)
  case Nil
  then show ?case by simp
next
  case (Cons a xs)
  obtain rd e w1 where s: "cmd_StdoutPipe sys a w = ((rd, e), w1)"
    by (cases "cmd_StdoutPipe sys a w") auto
  note eff = cmd_StdoutPipe_effect [OF s]
  show ?case
  proof (cases e)
    case None
    with Cons.prems s have "pipe_loop sys cmds se xs (i + 1) None
        (set_Stderr a (Some se) (set_Stdin (cmds ! (i + 1)) rd w1)) = (Some t, err', w')"
      by simp
    from Cons.IH [OF this] obtain k x where k: "k < length xs"
      and t: "t = errorf_path (Path (heap (set_Stderr a (Some se) (set_Stdin (cmds ! (i + 1)) rd w1))
                 (xs ! k))) x"
      and x: "err' = Some x"
      and tr: "trace w' = trace (set_Stderr a (Some se) (set_Stdin (cmds ! (i + 1)) rd w1)) @
                 pipes_made (take k xs) @ [EvStdoutPipe (xs ! k) (Some x)]"
      by blast
    have "Suc k < length (a # xs) \<and> t = errorf_path (Path (heap w ((a # xs) ! Suc k))) x \<and>
          err' = Some x \<and>
          trace w' = trace w @ pipes_made (take (Suc k) (a # xs)) @
            [EvStdoutPipe ((a # xs) ! Suc k) (Some x)]"
      using k t x tr by (simp add: eff None pipes_made_def)
    then show ?thesis by blast
  next
    case (Some x)
    with Cons.prems s
    have "t = errorf_path (Path (heap (set_Stdin (cmds ! (i + 1)) rd w1) a)) x" "err' = Some x"
      "w' = set_Stdin (cmds ! (i + 1)) rd w1"
      by auto
    then have "0 < length (a # xs) \<and> t = errorf_path (Path (heap w ((a # xs) ! 0))) x \<and>
          err' = Some x \<and>
          trace w' = trace w @ pipes_made (take 0 (a # xs)) @ [EvStdoutPipe ((a # xs) ! 0) (Some x)]"
      by (simp add: eff Some pipes_made_def)
    then show ?thesis by blast
  qed
qed

text \<open>What the loop leaves alone.\<close>

lemma pipe_loop_Stdin_frame:
  assumes "pipe_loop sys cmds se xs i err w = (r, err', w')"
    and "\<forall>j<length xs. b \<noteq> cmds ! Suc (i + j)"
  shows "Stdin (heap w' b) = Stdin (heap w b)"
  using assms
proof (induction xs arbitrary: i err w)
  case Nil
  then show ?case by simp
next
  case (Cons a xs)
  obtain rd e w1 where s: "cmd_StdoutPipe sys a w = ((rd, e), w1)"
    by (cases "cmd_StdoutPipe sys a w") auto
  note eff = cmd_StdoutPipe_effect [OF s]
  from Cons.prems(2) have b0: "b \<noteq> cmds ! Suc i" by auto
  show ?case
  proof (cases e)
    case None
    with Cons.prems s have run: "pipe_loop sys cmds se xs (i + 1) None
        (set_Stderr a (Some se) (set_Stdin (cmds ! (i + 1)) rd w1)) = (r, err', w')"
      by simp
    have "\<forall>j<length xs. b \<noteq> cmds ! Suc (i + 1 + j)"
      using Cons.prems(2) by auto
    from Cons.IH [OF run this] show ?thesis using b0 by (simp add: eff)
  next
    case (Some x)
    with Cons.prems s have "w' = set_Stdin (cmds ! (i + 1)) rd w1" by auto
    then show ?thesis using b0 by (simp add: eff)
  qed
qed

lemma pipe_loop_Stdout_frame:
  assumes "pipe_loop sys cmds se xs i err w = (r, err', w')" and "b \<notin> set xs"
  shows "Stdout (heap w' b) = Stdout (heap w b) \<and> Stderr (heap w' b) = Stderr (heap w b)"
  using assms
proof (induction xs arbitrary: i err w)
  case Nil
  then show ?case by simp
next
  case (Cons a xs)
  obtain rd e w1 where s: "cmd_StdoutPipe sys a w = ((rd, e), w1)"
    by (cases "cmd_StdoutPipe sys a w") auto
  note eff = cmd_StdoutPipe_effect [OF s]
  from Cons.prems(2) have ba: "b \<noteq> a" and bx: "b \<notin> set xs" by auto
  show ?case
  proof (cases e)
    case None
    with Cons.prems s have run: "pipe_loop sys cmds se xs (i + 1) None
        (set_Stderr a (Some se) (set_Stdin (cmds ! (i + 1)) rd w1)) = (r, err', w')"
      by simp
    from Cons.IH [OF run bx] show ?thesis using ba by (simp add: eff)
  next
    case (Some x)
    with Cons.prems s have "w' = set_Stdin (cmds ! (i + 1)) rd w1" by auto
    then show ?thesis using ba by (simp add: eff)
  qed
qed

text \<open>What the loop attaches when no pipe fails.\<close>

lemma pipe_loop_writers:
  assumes "pipe_loop sys cmds se xs i err w = (None, err', w')" and "distinct xs"
    and "j < length xs"
  shows "Stdout (heap w' (xs ! j)) = Some (PipeWriter (pipes w + j)) \<and>
         Stderr (heap w' (xs ! j)) = Some se"
  using assms
proof (induction xs arbitrary: i err w j)
  case Nil
  then show ?case by simp
next
  case (Cons a xs)
  obtain rd e w1 where s: "cmd_StdoutPipe sys a w = ((rd, e), w1)"
    by (cases "cmd_StdoutPipe sys a w") auto
  note eff = cmd_StdoutPipe_effect [OF s]
  from Cons.prems(1) s have e: "e = None" by (cases e) auto
  let ?w2 = "set_Stderr a (Some se) (set_Stdin (cmds ! (i + 1)) rd w1)"
  from Cons.prems(1) s e have run: "pipe_loop sys cmds se xs (i + 1) None ?w2 = (None, err', w')"
    by simp
  from Cons.prems(2) have ax: "a \<notin> set xs" and dx: "distinct xs" by auto
  show ?case
  proof (cases j)
    case 0
    from pipe_loop_Stdout_frame [OF run ax] show ?thesis
      by (simp add: 0 eff e)
  next
    case (Suc j')
    with Cons.prems(3) have "j' < length xs" by simp
    from Cons.IH [OF run dx this] show ?thesis
      by (simp add: Suc eff e)
  qed
qed

lemma pipe_loop_readers:
  assumes "pipe_loop sys cmds se xs i err w = (None, err', w')"
    and "distinct cmds" and "i + length xs < length cmds" and "j < length xs"
  shows "Stdin (heap w' (cmds ! Suc (i + j))) = Some (PipeReader (pipes w + j))"
  using assms
proof (induction xs arbitrary: i err w j)
  case Nil
  then show ?case by simp
next
  case (Cons a xs)
  obtain rd e w1 where s: "cmd_StdoutPipe sys a w = ((rd, e), w1)"
    by (cases "cmd_StdoutPipe sys a w") auto
  note eff = cmd_StdoutPipe_effect [OF s]
  from Cons.prems(1) s have e: "e = None" by (cases e) auto
  let ?w2 = "set_Stderr a (Some se) (set_Stdin (cmds ! (i + 1)) rd w1)"
  from Cons.prems(1) s e have run: "pipe_loop sys cmds se xs (i + 1) None ?w2 = (None, err', w')"
    by simp
  from Cons.prems(3) have len: "i + 1 + length xs < length cmds" by simp
  show ?case
  proof (cases j)
    case 0
    have "\<forall>j<length xs. cmds ! Suc i \<noteq> cmds ! Suc (i + 1 + j)"
      using Cons.prems(2) len by (auto simp: nth_eq_iff_index_eq)
    from pipe_loop_Stdin_frame [OF run this] show ?thesis
      by (simp add: 0 eff e)
  next
    case (Suc j')
    with Cons.prems(4) have "j' < length xs" by simp
    from Cons.IH [OF run Cons.prems(2) len this] show ?thesis
      by (simp add: Suc eff e)
  qed
qed

lemma wait_loop_others:
  assumes "wait_loop sys cmds err w = (r, err', w')" and "b \<notin> set cmds"
  shows "Process (heap w' b) = Process (heap w b)"
  using assms
proof (induction cmds arbitrary: err w)
  case Nil
  then show ?case by simp
next
  case (Cons a cmds)
  obtain e w1 where s: "cmd_Wait sys a w = (e, w1)" by (cases "cmd_Wait sys a w")
  note eff = cmd_Wait_effect [OF s]
  from Cons.prems(2) have ba: "b \<noteq> a" and bx: "b \<notin> set cmds" by auto
  show ?case
  proof (cases e)
    case None
    with Cons.prems s have "wait_loop sys cmds None w1 = (r, err', w')" by simp
    from Cons.IH [OF this bx] show ?thesis using ba by (simp add: eff)
  next
    case (Some x)
    with Cons.prems s have "w' = w1" by auto
    then show ?thesis using ba by (simp add: eff)
  qed
qed

lemma run_frame:
  assumes "run sys cmds err w = (r, w')"
  shows "pipes w' = pipes w \<and> Path (heap w' b) = Path (heap w b) \<and>
         Stdin (heap w' b) = Stdin (heap w b) \<and> Stdout (heap w' b) = Stdout (heap w b) \<and>
         Stderr (heap w' b) = Stderr (heap w b)"
proof -
  obtain r1 err1 ds w1 where s: "start_loop sys cmds err [] w = (r1, err1, ds, w1)"
    by (cases "start_loop sys cmds err [] w") auto
  note sf = start_loop_frame [OF s, of b]
  show ?thesis
  proof (cases r1)
    case (Some t)
    with assms s have "w' = run_deferred sys err1 ds w1" by (simp add: run_def)
    then show ?thesis using sf by simp
  next
    case None
    obtain r2 err2 w2 where x: "wait_loop sys cmds err1 w1 = (r2, err2, w2)"
      by (cases "wait_loop sys cmds err1 w1") auto
    note wf = wait_loop_frame [OF x, of b]
    from assms s x None have "w' = run_deferred sys err2 ds w2"
      by (cases r2) (simp_all add: run_def)
    then show ?thesis using sf wf by simp
  qed
qed

lemma run_cases [consumes 1, case_names StartFail WaitFail Ok]:
  assumes "run sys cmds err w = (r, w')"
  obtains
    (StartFail) k e where "k < length cmds"
      and "r = Some (errorf_path (Path (heap w (cmds ! k))) e)"
      and "trace w' = trace w @ starts (take k cmds) @ [EvStart (cmds ! k) (Some e)] @
             kills (rev (take k cmds))"
      and "\<forall>b. Process (heap w' b) =
             (if b \<in> set (take k cmds) then Some Reaped else Process (heap w b))"
  | (WaitFail) k e where "k < length cmds"
      and "r = Some (errorf_path (Path (heap w (cmds ! k))) e)"
      and "trace w' = trace w @ starts cmds @ waits (take k cmds) @ [EvWait (cmds ! k) (Some e)] @
             kills (rev cmds)"
      and "\<forall>b. Process (heap w' b) = (if b \<in> set cmds then Some Reaped else Process (heap w b))"
  | (Ok) "r = None"
      and "trace w' = trace w @ starts cmds @ waits cmds"
      and "\<forall>b. Process (heap w' b) = (if b \<in> set cmds then Some Reaped else Process (heap w b))"
proof -
  obtain r1 err1 ds w1 where s: "start_loop sys cmds err [] w = (r1, err1, ds, w1)"
    by (cases "start_loop sys cmds err [] w") auto
  show thesis
  proof (cases r1)
    case (Some t)
    from start_loop_fail [OF s [unfolded Some]] obtain k e where k: "k < length cmds"
      and t: "t = errorf_path (Path (heap w (cmds ! k))) e" and e: "err1 = Some e"
      and d: "ds = rev (take k cmds)"
      and tr: "trace w1 = trace w @ starts (take k cmds) @ [EvStart (cmds ! k) (Some e)]"
      and p: "\<forall>b. Process (heap w1 b) =
                (if b \<in> set (take k cmds) then Some Running else Process (heap w b))"
      by auto
    from assms s Some have r: "r = Some t" and w': "w' = run_deferred sys err1 ds w1"
      by (simp_all add: run_def)
    have live: "\<forall>a\<in>set ds. Process (heap w1 a) \<noteq> None" using p d by simp
    have ne: "err1 \<noteq> None" using e by simp
    note k = run_deferred_effect [OF ne live, of sys]
    show thesis
    proof (rule StartFail [of k e])
      show "k < length cmds" by fact
      show "r = Some (errorf_path (Path (heap w (cmds ! k))) e)" using r t by simp
      show "trace w' = trace w @ starts (take k cmds) @ [EvStart (cmds ! k) (Some e)] @
             kills (rev (take k cmds))"
        using k w' tr d by simp
      show "\<forall>b. Process (heap w' b) =
             (if b \<in> set (take k cmds) then Some Reaped else Process (heap w b))"
        using k w' p d by simp
    qed
  next
    case None
    from start_loop_ok [OF s [unfolded None]] have d: "ds = rev cmds"
      and tr: "trace w1 = trace w @ starts cmds"
      and e1: "err1 = (if cmds = [] then err else None)"
      and p: "\<forall>b. Process (heap w1 b) = (if b \<in> set cmds then Some Running else Process (heap w b))"
      by auto
    obtain r2 err2 w2 where x: "wait_loop sys cmds err1 w1 = (r2, err2, w2)"
      by (cases "wait_loop sys cmds err1 w1") auto
    show thesis
    proof (cases r2)
      case (Some t)
      from wait_loop_fail [OF x [unfolded Some]] obtain k e where k: "k < length cmds"
        and t: "t = errorf_path (Path (heap w1 (cmds ! k))) e" and e: "err2 = Some e"
        and tr2: "trace w2 = trace w1 @ waits (take k cmds) @ [EvWait (cmds ! k) (Some e)]"
        by auto
      from assms s x None Some have r: "r = Some t" and w': "w' = run_deferred sys err2 ds w2"
        by (simp_all add: run_def)
      have live: "\<forall>a\<in>set ds. Process (heap w2 a) \<noteq> None"
        using p d wait_loop_frame [OF x] by simp
      have ne: "err2 \<noteq> None" using e by simp
      note kk = run_deferred_effect [OF ne live, of sys]
      have others: "\<And>b. b \<notin> set cmds \<Longrightarrow> Process (heap w2 b) = Process (heap w b)"
        using wait_loop_others [OF x] p by simp
      show thesis
      proof (rule WaitFail [of k e])
        show "k < length cmds" by fact
        show "r = Some (errorf_path (Path (heap w (cmds ! k))) e)"
          using r t start_loop_frame [OF s] by simp
        show "trace w' = trace w @ starts cmds @ waits (take k cmds) @ [EvWait (cmds ! k) (Some e)] @
               kills (rev cmds)"
          using kk w' tr tr2 d by simp
        show "\<forall>b. Process (heap w' b) = (if b \<in> set cmds then Some Reaped else Process (heap w b))"
          using kk w' d others by simp
      qed
    next
      case None2: None
      from wait_loop_ok [OF x [unfolded None2]] have tr2: "trace w2 = trace w1 @ waits cmds"
        and e2: "err2 = (if cmds = [] then err1 else None)"
        and p2: "\<forall>b. Process (heap w2 b) =
                  (if b \<in> set cmds then map_option (\<lambda>_. Reaped) (Process (heap w1 b))
                   else Process (heap w1 b))"
        by auto
      from assms s x None None2 have r: "r = None" and w': "w' = run_deferred sys err2 ds w2"
        by (simp_all add: run_def)
      have "w' = w2"
      proof (cases "cmds = []")
        case True
        with d w' show ?thesis by simp
      next
        case False
        with e2 w' show ?thesis by simp
      qed
      show thesis
      proof (rule Ok)
        show "r = None" by fact
        show "trace w' = trace w @ starts cmds @ waits cmds"
          using \<open>w' = w2\<close> tr tr2 by simp
        show "\<forall>b. Process (heap w' b) = (if b \<in> set cmds then Some Reaped else Process (heap w b))"
          using \<open>w' = w2\<close> p p2 by simp
      qed
    qed
  qed
qed

section \<open>The pipeline as a whole\<close>

lemma take_last_butlast:
  "take (length cmds - 1) cmds = butlast cmds"
  "take (length cmds - Suc 0) cmds = butlast cmds"
  by (simp_all add: butlast_conv_take)

lemma connect_frame:
  assumes "connect sys cmds stdin stdout stderr w = (r, err, w')"
  shows "Path (heap w' b) = Path (heap w b) \<and> Process (heap w' b) = Process (heap w b)"
proof -
  let ?w1 = "if stdin \<noteq> None then set_Stdin (cmds ! 0) stdin w else w"
  obtain r1 err1 w2 where
    p: "pipe_loop sys cmds (or_discard stderr) (take (length cmds - 1) cmds) 0 None ?w1 = (r1, err1, w2)"
    by (cases "pipe_loop sys cmds (or_discard stderr) (take (length cmds - 1) cmds) 0 None ?w1") auto
  note f = pipe_loop_frame [OF p, of b]
  from assms p show ?thesis
    using f by (cases r1) (auto simp: connect_def Let_def)
qed

lemma connect_fail:
  assumes "connect sys cmds stdin stdout stderr w = (Some t, err, w')"
  shows "\<exists>k e. k < length cmds - 1 \<and> t = errorf_path (Path (heap w (cmds ! k))) e \<and>
           trace w' = trace w @ pipes_made (take k cmds) @ [EvStdoutPipe (cmds ! k) (Some e)]"
proof -
  let ?w1 = "if stdin \<noteq> None then set_Stdin (cmds ! 0) stdin w else w"
  obtain r1 err1 w2 where
    p: "pipe_loop sys cmds (or_discard stderr) (take (length cmds - 1) cmds) 0 None ?w1 = (r1, err1, w2)"
    by (cases "pipe_loop sys cmds (or_discard stderr) (take (length cmds - 1) cmds) 0 None ?w1") auto
  from assms p have r1: "r1 = Some t" and w': "w' = w2"
    by (cases r1; simp add: connect_def Let_def)+
  from pipe_loop_fail [OF p [unfolded r1]] obtain k e
    where k: "k < length (take (length cmds - 1) cmds)"
      and t: "t = errorf_path (Path (heap ?w1 (take (length cmds - 1) cmds ! k))) e"
      and tr: "trace w2 = trace ?w1 @ pipes_made (take k (take (length cmds - 1) cmds)) @
                 [EvStdoutPipe (take (length cmds - 1) cmds ! k) (Some e)]"
    by blast
  from k have k': "k < length cmds - 1" by simp
  then have "min k (length cmds - 1) = k" by simp
  with k' t tr w' have "k < length cmds - 1 \<and> t = errorf_path (Path (heap w (cmds ! k))) e \<and>
           trace w' = trace w @ pipes_made (take k cmds) @ [EvStdoutPipe (cmds ! k) (Some e)]"
    by simp
  then show ?thesis by blast
qed

lemma connect_ok:
  assumes "connect sys cmds stdin stdout stderr w = (None, err, w')"
  shows "err = None \<and> trace w' = trace w @ pipes_made (butlast cmds) \<and>
         pipes w' = pipes w + (length cmds - 1)"
proof -
  let ?w1 = "if stdin \<noteq> None then set_Stdin (cmds ! 0) stdin w else w"
  obtain r1 err1 w2 where
    p: "pipe_loop sys cmds (or_discard stderr) (take (length cmds - 1) cmds) 0 None ?w1 = (r1, err1, w2)"
    by (cases "pipe_loop sys cmds (or_discard stderr) (take (length cmds - 1) cmds) 0 None ?w1") auto
  from assms p have r1: "r1 = None" and e: "err = err1"
    and w': "w' = set_Stderr (cmds ! (length cmds - 1)) (Some (or_discard stderr))
                   (set_Stdout (cmds ! (length cmds - 1)) (Some (or_discard stdout)) w2)"
    by (cases r1; simp add: connect_def Let_def)+
  from pipe_loop_ok [OF p [unfolded r1]] show ?thesis
    using e w' by (simp add: take_last_butlast)
qed

lemma connect_Stdin_first:
  assumes "connect sys cmds stdin stdout stderr w = (r, err, w')"
    and "cmds \<noteq> []" and "cmds ! 0 \<notin> set (tl cmds)"
  shows "Stdin (heap w' (cmds ! 0)) = (if stdin \<noteq> None then stdin else Stdin (heap w (cmds ! 0)))"
proof -
  let ?w1 = "if stdin \<noteq> None then set_Stdin (cmds ! 0) stdin w else w"
  obtain r1 err1 w2 where
    p: "pipe_loop sys cmds (or_discard stderr) (take (length cmds - 1) cmds) 0 None ?w1 = (r1, err1, w2)"
    by (cases "pipe_loop sys cmds (or_discard stderr) (take (length cmds - 1) cmds) 0 None ?w1") auto
  have "\<forall>j<length (take (length cmds - 1) cmds). cmds ! 0 \<noteq> cmds ! Suc (0 + j)"
  proof (intro allI impI)
    fix j assume "j < length (take (length cmds - 1) cmds)"
    then have "j < length (tl cmds)" by simp
    then have "tl cmds ! j \<in> set (tl cmds)" by (rule nth_mem)
    moreover have "tl cmds ! j = cmds ! Suc (0 + j)"
      using assms(2) \<open>j < length (tl cmds)\<close> by (simp add: nth_tl)
    ultimately show "cmds ! 0 \<noteq> cmds ! Suc (0 + j)" using assms(3) by metis
  qed
  from pipe_loop_Stdin_frame [OF p this] have "Stdin (heap w2 (cmds ! 0)) = Stdin (heap ?w1 (cmds ! 0))" .
  moreover from assms(1) p have "Stdin (heap w' (cmds ! 0)) = Stdin (heap w2 (cmds ! 0))"
    by (cases r1) (auto simp: connect_def Let_def)
  ultimately show ?thesis by simp
qed

lemma connect_wired:
  assumes "connect sys cmds stdin stdout stderr w = (None, err, w')"
    and "cmds \<noteq> []" and "distinct cmds"
  shows "wired cmds stdin stdout stderr (pipes w) (heap w) (heap w')"
proof -
  let ?w1 = "if stdin \<noteq> None then set_Stdin (cmds ! 0) stdin w else w"
  let ?n = "length cmds - 1"
  let ?xs = "take ?n cmds"
  obtain r1 err1 w2 where
    p: "pipe_loop sys cmds (or_discard stderr) ?xs 0 None ?w1 = (r1, err1, w2)"
    by (cases "pipe_loop sys cmds (or_discard stderr) ?xs 0 None ?w1") auto
  from assms(1) p have r1: "r1 = None"
    and w': "w' = set_Stderr (cmds ! ?n) (Some (or_discard stderr))
                   (set_Stdout (cmds ! ?n) (Some (or_discard stdout)) w2)"
    by (cases r1; simp add: connect_def Let_def)+
  note p' = p [unfolded r1]
  have dx: "distinct ?xs" using assms(3) by simp
  have len: "0 + length ?xs < length cmds" using assms(2) by (simp add: Suc_leI)
  have n: "?n < length cmds" using assms(2) by simp
  have pw: "pipes ?w1 = pipes w" by simp
  have wr: "Stdout (heap w2 (cmds ! i)) = Some (PipeWriter (pipes w + i)) \<and>
            Stderr (heap w2 (cmds ! i)) = Some (or_discard stderr)" if "i < ?n" for i
    using pipe_loop_writers [OF p' dx, of i] that by (simp add: pw)
  have rd: "Stdin (heap w2 (cmds ! Suc i)) = Some (PipeReader (pipes w + i))" if "i < ?n" for i
    using pipe_loop_readers [OF p' assms(3) len, of i] that by (simp add: pw)
  have ne: "cmds ! i \<noteq> cmds ! ?n" if "i < ?n" for i
    using that n assms(3) by (simp add: nth_eq_iff_index_eq)
  have first: "Stdin (heap w' (cmds ! 0)) = (if stdin \<noteq> None then stdin else Stdin (heap w (cmds ! 0)))"
  proof (rule connect_Stdin_first [OF assms(1) assms(2)])
    show "cmds ! 0 \<notin> set (tl cmds)"
      using assms(2,3) by (cases cmds) auto
  qed
  have "\<forall>i<?n. Stdout (heap w' (cmds ! i)) = Some (PipeWriter (pipes w + i)) \<and>
                 Stdin (heap w' (cmds ! (i + 1))) = Some (PipeReader (pipes w + i))"
    using wr rd ne by (simp add: w')
  moreover have "Stdout (heap w' (cmds ! ?n)) = Some (or_discard stdout)"
    by (simp add: w')
  moreover have "\<forall>i<length cmds. Stderr (heap w' (cmds ! i)) = Some (or_discard stderr)"
  proof (intro allI impI)
    fix i assume "i < length cmds"
    then have "i < ?n \<or> i = ?n" by auto
    then show "Stderr (heap w' (cmds ! i)) = Some (or_discard stderr)"
      using wr by (auto simp: w')
  qed
  ultimately show ?thesis using first by (simp add: wired_def or_discard_def)
qed

lemma events_sinceI: "trace w' = trace w @ evs \<Longrightarrow> events_since w w' = evs"
  by (simp add: events_since_def)

lemma ExecPipeline_cases [consumes 1, case_names Empty PipeFail StartFail WaitFail Ok]:
  assumes "ExecPipeline sys cmds stdin stdout stderr w = (r, w')"
  obtains
    (Empty) "cmds = []" and "r = Some ''No commands provided to ExecPipeline''" and "w' = w"
  | (PipeFail) k e where "k < length cmds - 1"
      and "r = Some (errorf_path (Path (heap w (cmds ! k))) e)"
      and "events_since w w' = pipes_made (take k cmds) @ [EvStdoutPipe (cmds ! k) (Some e)]"
      and "\<forall>b. Process (heap w' b) = Process (heap w b)"
  | (StartFail) k e where "k < length cmds"
      and "r = Some (errorf_path (Path (heap w (cmds ! k))) e)"
      and "events_since w w' = pipes_made (butlast cmds) @ starts (take k cmds) @
             [EvStart (cmds ! k) (Some e)] @ kills (rev (take k cmds))"
      and "\<forall>b. Process (heap w' b) =
             (if b \<in> set (take k cmds) then Some Reaped else Process (heap w b))"
  | (WaitFail) k e where "k < length cmds"
      and "r = Some (errorf_path (Path (heap w (cmds ! k))) e)"
      and "events_since w w' = pipes_made (butlast cmds) @ starts cmds @ waits (take k cmds) @
             [EvWait (cmds ! k) (Some e)] @ kills (rev cmds)"
      and "\<forall>b. Process (heap w' b) = (if b \<in> set cmds then Some Reaped else Process (heap w b))"
  | (Ok) "cmds \<noteq> []" and "r = None"
      and "events_since w w' = pipes_made (butlast cmds) @ starts cmds @ waits cmds"
      and "\<forall>b. Process (heap w' b) = (if b \<in> set cmds then Some Reaped else Process (heap w b))"
proof (cases "cmds = []")
  case True
  with assms show thesis by (intro Empty) (simp_all add: ExecPipeline_def)
next
  case False
  obtain r1 err1 w1 where c: "connect sys cmds stdin stdout stderr w = (r1, err1, w1)"
    by (cases "connect sys cmds stdin stdout stderr w") auto
  note cf = connect_frame [OF c]
  show thesis
  proof (cases r1)
    case (Some t)
    with assms c False have r: "r = Some t" and w': "w' = w1"
      by (simp_all add: ExecPipeline_def)
    from connect_fail [OF c [unfolded Some]] obtain k e where "k < length cmds - 1"
      and "t = errorf_path (Path (heap w (cmds ! k))) e"
      and "trace w1 = trace w @ pipes_made (take k cmds) @ [EvStdoutPipe (cmds ! k) (Some e)]"
      by blast
    then show thesis using r w' cf
      by (intro PipeFail [of k e]) (simp_all add: events_sinceI)
  next
    case None
    with assms c False have run: "run sys cmds err1 w1 = (r, w')"
      by (simp add: ExecPipeline_def)
    from connect_ok [OF c [unfolded None]]
    have tr: "trace w1 = trace w @ pipes_made (butlast cmds)" by simp
    from run show thesis
    proof (cases rule: run_cases)
      case (StartFail k e)
      then show ?thesis using tr cf
        by (intro that(3) [of k e]) (simp_all add: events_sinceI)
    next
      case (WaitFail k e)
      then show ?thesis using tr cf
        by (intro that(4) [of k e]) (simp_all add: events_sinceI)
    next
      case Ok
      then show ?thesis using tr cf False
        by (intro that(5)) (simp_all add: events_sinceI)
    qed
  qed
qed

lemma ExecPipeline_streams:
  assumes "ExecPipeline sys cmds stdin stdout stderr w = (r, w')"
    and "connect sys cmds stdin stdout stderr w = (r1, err1, w1)"
  shows "cmds \<noteq> [] \<longrightarrow> Path (heap w' b) = Path (heap w1 b) \<and> Stdin (heap w' b) = Stdin (heap w1 b) \<and>
         Stdout (heap w' b) = Stdout (heap w1 b) \<and> Stderr (heap w' b) = Stderr (heap w1 b)"
proof
  assume ne: "cmds \<noteq> []"
  show "Path (heap w' b) = Path (heap w1 b) \<and> Stdin (heap w' b) = Stdin (heap w1 b) \<and>
         Stdout (heap w' b) = Stdout (heap w1 b) \<and> Stderr (heap w' b) = Stderr (heap w1 b)"
  proof (cases r1)
    case (Some t)
    with assms ne have "w' = w1" by (simp add: ExecPipeline_def)
    then show ?thesis by simp
  next
    case None
    with assms ne have "run sys cmds err1 w1 = (r, w')" by (simp add: ExecPipeline_def)
    from run_frame [OF this] show ?thesis by simp
  qed
qed

lemma start_calls_append [simp]: "start_calls (xs @ ys) = start_calls xs @ start_calls ys"
  by (induction xs) (simp_all split: event.splits)

lemma wait_calls_append [simp]: "wait_calls (xs @ ys) = wait_calls xs @ wait_calls ys"
  by (induction xs) (simp_all split: event.splits)

lemma start_calls_shapes [simp]:
  "start_calls (pipes_made xs) = []"
  "start_calls (starts xs) = xs"
  "start_calls (waits xs) = []"
  "start_calls (kills xs) = []"
  by (induction xs) (simp_all add: pipes_made_def starts_def waits_def kills_def)

lemma wait_calls_shapes [simp]:
  "wait_calls (pipes_made xs) = []"
  "wait_calls (starts xs) = []"
  "wait_calls (waits xs) = xs"
  "wait_calls (kills xs) = []"
  by (induction xs) (simp_all add: pipes_made_def starts_def waits_def kills_def)

lemma shapes_append [simp]:
  "pipes_made (xs @ ys) = pipes_made xs @ pipes_made ys"
  "starts (xs @ ys) = starts xs @ starts ys"
  "waits (xs @ ys) = waits xs @ waits ys"
  "kills (xs @ ys) = kills xs @ kills ys"
  by (simp_all add: pipes_made_def starts_def waits_def kills_def)

lemma shapes_Cons:
  "starts (a # xs) = EvStart a None # starts xs"
  "waits (a # xs) = EvWait a None # waits xs"
  "kills (a # xs) = EvKill a # EvProcWait a # kills xs"
  by (simp_all add: starts_def waits_def kills_def)

lemma in_pipes_made [simp]:
  "EvStart a e \<notin> set (pipes_made xs)"
  "EvWait a e \<notin> set (pipes_made xs)"
  "EvKill a \<notin> set (pipes_made xs)"
  by (auto simp: pipes_made_def)

lemma in_starts [simp]:
  "EvStart a e \<in> set (starts xs) \<longleftrightarrow> e = None \<and> a \<in> set xs"
  "EvWait a e \<notin> set (starts xs)"
  "EvKill a \<notin> set (starts xs)"
  by (auto simp: starts_def)

lemma in_waits [simp]:
  "EvStart a e \<notin> set (waits xs)"
  "EvWait a e \<in> set (waits xs) \<longleftrightarrow> e = None \<and> a \<in> set xs"
  "EvKill a \<notin> set (waits xs)"
  by (auto simp: waits_def)

lemma in_kills [simp]:
  "EvStart a e \<notin> set (kills xs)"
  "EvWait a e \<notin> set (kills xs)"
  "EvKill a \<in> set (kills xs) \<longleftrightarrow> a \<in> set xs"
  by (auto simp: kills_def)

section \<open>A single command as a whole\<close>

lemma Exec_cases [consumes 1, case_names StartFail WaitFail Ok]:
  assumes "Exec sys cmd stdin stdout stderr w = (r, w')"
  obtains
    (StartFail) e where "r = Some (errorf_path (Path (heap w cmd)) e)"
      and "events_since w w' = [EvStart cmd (Some e)]"
  | (WaitFail) e where "r = Some (errorf_path (Path (heap w cmd)) e)"
      and "events_since w w' = [EvStart cmd None, EvWait cmd (Some e)]"
  | (Ok) "r = None" and "events_since w w' = [EvStart cmd None, EvWait cmd None]"
proof -
  let ?w3 = "set_Stderr cmd (Some (or_discard stderr)) (set_Stdout cmd (Some (or_discard stdout))
               (if stdin \<noteq> None then set_Stdin cmd stdin w else w))"
  have t3: "trace ?w3 = trace w" and p3: "Path (heap ?w3 cmd) = Path (heap w cmd)" by simp_all
  obtain e1 w4 where s: "cmd_Start sys cmd ?w3 = (e1, w4)" by (cases "cmd_Start sys cmd ?w3")
  note se = cmd_Start_effect [OF s]
  show thesis
  proof (cases e1)
    case (Some e)
    with assms s have "r = Some (errorf_path (Path (heap w4 cmd)) e)" and "w' = w4"
      by (auto simp: Exec_def Let_def)
    then show thesis using se(1) se(3) [of cmd] t3 p3 Some
      by (intro StartFail [of e]) (simp_all add: events_since_def)
  next
    case None
    obtain e2 w5 where x: "cmd_Wait sys cmd w4 = (e2, w5)" by (cases "cmd_Wait sys cmd w4")
    note we = cmd_Wait_effect [OF x]
    have tr: "trace w5 = trace w @ [EvStart cmd None, EvWait cmd e2]"
      using se(1) we(1) t3 None by simp
    have pa: "Path (heap w5 cmd) = Path (heap w cmd)"
      using se(3) [of cmd] we(3) [of cmd] p3 by simp
    show thesis
    proof (cases e2)
      case (Some e)
      with assms s x None have "r = Some (errorf_path (Path (heap w5 cmd)) e)" and "w' = w5"
        by (auto simp: Exec_def Let_def)
      then show thesis using tr pa Some
        by (intro WaitFail [of e]) (simp_all add: events_since_def)
    next
      case None2: None
      with assms s x None have "r = None" and "w' = w5"
        by (auto simp: Exec_def Let_def)
      then show thesis using tr None2
        by (intro Ok) (simp_all add: events_since_def)
    qed
  qed
qed


lemma ExecE_Some:
  "ExecE sys cmd stdin stdout w = (Some t, w') \<Longrightarrow>
     \<exists>u. Exec sys cmd stdin stdout (Some StderrBuffer) (new_buffer StderrBuffer w) = (Some u, w') \<and>
         t = errorf_captured u (written w' StderrBuffer)"
  by (simp add: ExecE_def split: prod.splits option.splits)

lemma ExecPipelineE_Some:
  "ExecPipelineE sys cmds stdin stdout w = (Some t, w') \<Longrightarrow>
     \<exists>u. ExecPipeline sys cmds stdin stdout (Some StderrBuffer) (new_buffer StderrBuffer w) = (Some u, w') \<and>
         t = errorf_captured u (written w' StderrBuffer)"
  by (simp add: ExecPipelineE_def split: prod.splits option.splits)

lemma Exec_streams:
  "Stdin (heap (snd (Exec sys cmd stdin stdout stderr w)) cmd) =
     (if stdin \<noteq> None then stdin else Stdin (heap w cmd)) \<and>
   Stdout (heap (snd (Exec sys cmd stdin stdout stderr w)) cmd) = Some (or_discard stdout) \<and>
   Stderr (heap (snd (Exec sys cmd stdin stdout stderr w)) cmd) = Some (or_discard stderr)"
proof -
  define w3 where "w3 = set_Stderr cmd (Some (or_discard stderr))
      (set_Stdout cmd (Some (or_discard stdout))
        (if stdin \<noteq> None then set_Stdin cmd stdin w else w))"
  have w3: "Stdin (heap w3 cmd) = (if stdin \<noteq> None then stdin else Stdin (heap w cmd))"
    "Stdout (heap w3 cmd) = Some (or_discard stdout)"
    "Stderr (heap w3 cmd) = Some (or_discard stderr)"
    by (simp_all add: w3_def)
  obtain e1 w4 where s: "cmd_Start sys cmd w3 = (e1, w4)" by (cases "cmd_Start sys cmd w3")
  obtain e2 w5 where x: "cmd_Wait sys cmd w4 = (e2, w5)" by (cases "cmd_Wait sys cmd w4")
  note se = cmd_Start_effect [OF s] and we = cmd_Wait_effect [OF x]
  have "snd (Exec sys cmd stdin stdout stderr w) = (if e1 = None then w5 else w4)"
    using s x by (cases e1; cases e2) (simp_all add: Exec_def Let_def w3_def)
  then show ?thesis
    by (simp add: se we w3)
qed

lemma ExecPipeline_wired:
  assumes "ExecPipeline sys cmds stdin stdout stderr w = (r, w')"
    and "cmds \<noteq> []" and "distinct cmds"
    and "fst (connect sys cmds stdin stdout stderr w) = None"
  shows "wired cmds stdin stdout stderr (pipes w) (heap w) (heap w')"
proof -
  obtain err1 w1 where c: "connect sys cmds stdin stdout stderr w = (None, err1, w1)"
    using assms(4) by (cases "connect sys cmds stdin stdout stderr w") auto
  note st = ExecPipeline_streams [OF assms(1) c, rule_format, OF assms(2)]
  from connect_wired [OF c assms(2,3)] show ?thesis
    by (simp add: wired_def st)
qed

lemma ExecPipeline_nil_connect:
  assumes "ExecPipeline sys cmds stdin stdout stderr w = (None, w')"
  shows "fst (connect sys cmds stdin stdout stderr w) = None"
proof (cases "fst (connect sys cmds stdin stdout stderr w)")
  case None
  then show ?thesis .
next
  case (Some t)
  then obtain err1 w1 where "connect sys cmds stdin stdout stderr w = (Some t, err1, w1)"
    by (cases "connect sys cmds stdin stdout stderr w") auto
  with assms show ?thesis
    by (simp add: ExecPipeline_def split: if_splits)
qed

lemma deferred_kill_reaped:
  assumes "Process (heap w a) = Some Reaped"
  shows "heap (deferred_kill sys err a w) = heap w"
proof
  fix b
  show "heap (deferred_kill sys err a w) b = heap w b"
    using assms by (cases "heap w a") (auto simp: deferred_kill_def proc_Wait_def proc_Signal_KILL_def)
qed

lemma connect_single:
  "connect sys [cmd] stdin stdout stderr w =
     (None, None,
      set_Stderr cmd (Some (or_discard stderr)) (set_Stdout cmd (Some (or_discard stdout))
        (if stdin \<noteq> None then set_Stdin cmd stdin w else w)))"
  by (simp add: connect_def)

section \<open>Destinations and quiet writers\<close>

text \<open>The error destination reaches every command the loop visits, aliased or not.\<close>

lemma pipe_loop_Stderr:
  assumes "pipe_loop sys cmds se xs i err w = (None, err', w')"
  shows "Stderr (heap w' b) = (if b \<in> set xs then Some se else Stderr (heap w b))"
  using assms
proof (induction xs arbitrary: i err w)
  case Nil
  then show ?case by simp
next
  case (Cons a xs)
  obtain rd e w1 where s: "cmd_StdoutPipe sys a w = ((rd, e), w1)"
    by (cases "cmd_StdoutPipe sys a w") auto
  note eff = cmd_StdoutPipe_effect [OF s]
  from Cons.prems s have e: "e = None" by (cases e) auto
  with Cons.prems s have "pipe_loop sys cmds se xs (i + 1) None
      (set_Stderr a (Some se) (set_Stdin (cmds ! (i + 1)) rd w1)) = (None, err', w')"
    by simp
  from Cons.IH [OF this] show ?case
    by (simp add: eff)
qed

lemma connect_destinations:
  assumes "connect sys cmds stdin stdout stderr w = (None, err, w')" and "cmds \<noteq> []"
  shows "Stdout (heap w' (cmds ! (length cmds - 1))) = Some (or_discard stdout) \<and>
         (\<forall>i<length cmds. Stderr (heap w' (cmds ! i)) = Some (or_discard stderr))"
proof -
  define w1 where "w1 = (if stdin \<noteq> None then set_Stdin (cmds ! 0) stdin w else w)"
  let ?n = "length cmds - 1"
  obtain r1 err1 w2 where
    p: "pipe_loop sys cmds (or_discard stderr) (take ?n cmds) 0 None w1 = (r1, err1, w2)"
    by (cases "pipe_loop sys cmds (or_discard stderr) (take ?n cmds) 0 None w1") auto
  from assms(1) p have r1: "r1 = None"
    and w': "w' = set_Stderr (cmds ! ?n) (Some (or_discard stderr))
                   (set_Stdout (cmds ! ?n) (Some (or_discard stdout)) w2)"
    by (cases r1; simp add: connect_def Let_def w1_def)+
  note se = pipe_loop_Stderr [OF p [unfolded r1]]
  have "Stderr (heap w' (cmds ! i)) = Some (or_discard stderr)" if "i < length cmds" for i
  proof (cases "i = ?n")
    case True
    then show ?thesis by (simp add: w')
  next
    case False
    with that have "i < ?n" by simp
    then have "cmds ! i \<in> set (take ?n cmds)"
      by (auto simp: in_set_conv_nth intro!: exI [of _ i])
    then show ?thesis by (simp add: w' se)
  qed
  then show ?thesis by (simp add: w')
qed

text \<open>When the operating system delivers nothing to a writer, no call changes what it holds.\<close>

lemma cmd_Start_quiet:
  assumes "\<forall>w ev. emits sys w ev s = []" and "cmd_Start sys a w = (e, w')"
  shows "written w' s = written w s"
  using assms by (auto simp: cmd_Start_def split: option.splits)

lemma cmd_Wait_quiet:
  assumes "\<forall>w ev. emits sys w ev s = []" and "cmd_Wait sys a w = (e, w')"
  shows "written w' s = written w s"
  using assms by (auto simp: cmd_Wait_def Let_def)

lemma cmd_StdoutPipe_quiet:
  assumes "\<forall>w ev. emits sys w ev s = []" and "cmd_StdoutPipe sys a w = (re, w')"
  shows "written w' s = written w s"
  using assms by (auto simp: cmd_StdoutPipe_def set_Stdout_def split: option.splits)

lemma deferred_kill_quiet:
  assumes "\<forall>w ev. emits sys w ev s = []"
  shows "written (deferred_kill sys err a w) s = written w s"
  using assms by (simp add: deferred_kill_def proc_Wait_def proc_Signal_KILL_def)

lemma run_deferred_quiet:
  assumes "\<forall>w ev. emits sys w ev s = []"
  shows "written (run_deferred sys err ds w) s = written w s"
  by (induction ds arbitrary: w) (simp_all add: deferred_kill_quiet [OF assms])

lemma start_loop_quiet:
  assumes "\<forall>w ev. emits sys w ev s = []" and "start_loop sys cmds err ds w = (r, err', ds', w')"
  shows "written w' s = written w s"
  using assms(2)
proof (induction cmds arbitrary: err ds w)
  case Nil
  then show ?case by simp
next
  case (Cons a cmds)
  obtain e w1 where st: "cmd_Start sys a w = (e, w1)" by (cases "cmd_Start sys a w")
  note q = cmd_Start_quiet [OF assms(1) st]
  show ?case
  proof (cases e)
    case None
    with Cons.prems st have "start_loop sys cmds None (a # ds) w1 = (r, err', ds', w')" by simp
    from Cons.IH [OF this] show ?thesis by (simp add: q)
  next
    case (Some x)
    with Cons.prems st have "w' = w1" by auto
    then show ?thesis by (simp add: q)
  qed
qed

lemma wait_loop_quiet:
  assumes "\<forall>w ev. emits sys w ev s = []" and "wait_loop sys cmds err w = (r, err', w')"
  shows "written w' s = written w s"
  using assms(2)
proof (induction cmds arbitrary: err w)
  case Nil
  then show ?case by simp
next
  case (Cons a cmds)
  obtain e w1 where st: "cmd_Wait sys a w = (e, w1)" by (cases "cmd_Wait sys a w")
  note q = cmd_Wait_quiet [OF assms(1) st]
  show ?case
  proof (cases e)
    case None
    with Cons.prems st have "wait_loop sys cmds None w1 = (r, err', w')" by simp
    from Cons.IH [OF this] show ?thesis by (simp add: q)
  next
    case (Some x)
    with Cons.prems st have "w' = w1" by auto
    then show ?thesis by (simp add: q)
  qed
qed

lemma pipe_loop_quiet:
  assumes "\<forall>w ev. emits sys w ev s = []" and "pipe_loop sys cmds se xs i err w = (r, err', w')"
  shows "written w' s = written w s"
  using assms(2)
proof (induction xs arbitrary: i err w)
  case Nil
  then show ?case by simp
next
  case (Cons a xs)
  obtain rd e w1 where st: "cmd_StdoutPipe sys a w = ((rd, e), w1)"
    by (cases "cmd_StdoutPipe sys a w") auto
  note q = cmd_StdoutPipe_quiet [OF assms(1) st]
  show ?case
  proof (cases e)
    case None
    with Cons.prems st have "pipe_loop sys cmds se xs (i + 1) None
        (set_Stderr a (Some se) (set_Stdin (cmds ! (i + 1)) rd w1)) = (r, err', w')"
      by simp
    from Cons.IH [OF this] show ?thesis by (simp add: q)
  next
    case (Some x)
    with Cons.prems st have "w' = set_Stdin (cmds ! (i + 1)) rd w1" by auto
    then show ?thesis by (simp add: q)
  qed
qed

lemma connect_quiet:
  assumes "\<forall>w ev. emits sys w ev s = []" and "connect sys cmds stdin stdout stderr w = (r, err, w')"
  shows "written w' s = written w s"
proof -
  define w1 where "w1 = (if stdin \<noteq> None then set_Stdin (cmds ! 0) stdin w else w)"
  have w1: "written w1 s = written w s" by (simp add: w1_def)
  obtain r1 err1 w2 where
    p: "pipe_loop sys cmds (or_discard stderr) (take (length cmds - 1) cmds) 0 None w1 = (r1, err1, w2)"
    by (cases "pipe_loop sys cmds (or_discard stderr) (take (length cmds - 1) cmds) 0 None w1") auto
  note q = pipe_loop_quiet [OF assms(1) p]
  from assms(2) p have "written w' s = written w2 s"
    by (cases r1) (auto simp: connect_def Let_def w1_def)
  then show ?thesis by (simp add: q w1)
qed

lemma run_quiet:
  assumes "\<forall>w ev. emits sys w ev s = []" and "run sys cmds err w = (r, w')"
  shows "written w' s = written w s"
proof -
  obtain r1 err1 ds w1 where st: "start_loop sys cmds err [] w = (r1, err1, ds, w1)"
    by (cases "start_loop sys cmds err [] w") auto
  note q1 = start_loop_quiet [OF assms(1) st]
  note qd = run_deferred_quiet [OF assms(1)]
  show ?thesis
  proof (cases r1)
    case (Some t)
    with assms(2) st have "w' = run_deferred sys err1 ds w1" by (simp add: run_def)
    then show ?thesis by (simp add: q1 qd)
  next
    case None
    obtain r2 err2 w2 where x: "wait_loop sys cmds err1 w1 = (r2, err2, w2)"
      by (cases "wait_loop sys cmds err1 w1") auto
    note q2 = wait_loop_quiet [OF assms(1) x]
    from assms(2) st x None have "w' = run_deferred sys err2 ds w2"
      by (cases r2) (simp_all add: run_def)
    then show ?thesis by (simp add: q1 q2 qd)
  qed
qed

lemma ExecPipeline_quiet:
  assumes "\<forall>w ev. emits sys w ev s = []"
    and "ExecPipeline sys cmds stdin stdout stderr w = (r, w')"
  shows "written w' s = written w s"
proof (cases "cmds = []")
  case True
  with assms(2) show ?thesis by (simp add: ExecPipeline_def)
next
  case False
  obtain r1 err1 w1 where c: "connect sys cmds stdin stdout stderr w = (r1, err1, w1)"
    by (cases "connect sys cmds stdin stdout stderr w") auto
  note qc = connect_quiet [OF assms(1) c]
  show ?thesis
  proof (cases r1)
    case (Some t)
    with assms(2) c False have "w' = w1" by (simp add: ExecPipeline_def)
    then show ?thesis by (simp add: qc)
  next
    case None
    with assms(2) c False have "run sys cmds err1 w1 = (r, w')" by (simp add: ExecPipeline_def)
    from run_quiet [OF assms(1) this] show ?thesis by (simp add: qc)
  qed
qed

lemma Exec_quiet:
  assumes "\<forall>w ev. emits sys w ev s = []"
    and "Exec sys cmd stdin stdout stderr w = (r, w')"
  shows "written w' s = written w s"
proof -
  define w3 where "w3 = set_Stderr cmd (Some (or_discard stderr))
      (set_Stdout cmd (Some (or_discard stdout))
        (if stdin \<noteq> None then set_Stdin cmd stdin w else w))"
  have w3: "written w3 s = written w s" by (simp add: w3_def)
  obtain e1 w4 where st: "cmd_Start sys cmd w3 = (e1, w4)" by (cases "cmd_Start sys cmd w3")
  obtain e2 w5 where x: "cmd_Wait sys cmd w4 = (e2, w5)" by (cases "cmd_Wait sys cmd w4")
  note q1 = cmd_Start_quiet [OF assms(1) st] and q2 = cmd_Wait_quiet [OF assms(1) x]
  have "snd (Exec sys cmd stdin stdout stderr w) = (if e1 = None then w5 else w4)"
    using st x by (cases e1; cases e2) (simp_all add: Exec_def Let_def w3_def)
  with assms(2) have "w' = (if e1 = None then w5 else w4)" by simp
  then show ?thesis by (simp add: q1 q2 w3)
qed

lemma ExecPipeline_destinations:
  assumes "ExecPipeline sys cmds stdin stdout stderr w = (r, w')"
    and "cmds \<noteq> []" and "fst (connect sys cmds stdin stdout stderr w) = None"
  shows "Stdout (heap w' (cmds ! (length cmds - 1))) = Some (or_discard stdout) \<and>
         (\<forall>i<length cmds. Stderr (heap w' (cmds ! i)) = Some (or_discard stderr))"
proof -
  obtain err1 w1 where c: "connect sys cmds stdin stdout stderr w = (None, err1, w1)"
    using assms(3) by (cases "connect sys cmds stdin stdout stderr w") auto
  note st = ExecPipeline_streams [OF assms(1) c, rule_format, OF assms(2)]
  from connect_destinations [OF c assms(2)] show ?thesis
    by (simp add: st)
qed

section \<open>Claims\<close>

text \<open>
  C1.  Whenever \<^verbatim>\<open>ExecPipeline\<close> returns an error, every command that was started is sent
  \<^verbatim>\<open>SIGKILL\<close> and then reaped by \<^verbatim>\<open>Process.Wait\<close>, after its start and before the call returns,
  whether or not its own \<^verbatim>\<open>Wait\<close> had succeeded, and its process handle ends reaped.  The
  signal is sent without asking whether the process still runs; it does nothing to a
  process already waited for.  When the call returns nil, no command is sent the signal
  and every started command has been waited for and reaped.
\<close>

theorem C1_cleanup_on_failure:
  assumes "ExecPipeline sys cmds stdin stdout stderr w = (r, w')"
  shows "(r \<noteq> None \<longrightarrow>
           (\<forall>a. EvStart a None \<in> set (events_since w w') \<longrightarrow>
              (\<exists>pre mid post. events_since w w' =
                 pre @ EvStart a None # mid @ EvKill a # EvProcWait a # post) \<and>
              Process (heap w' a) = Some Reaped)) \<and>
         (r = None \<longrightarrow>
           (\<forall>a. EvKill a \<notin> set (events_since w w')) \<and>
           (\<forall>a. EvStart a None \<in> set (events_since w w') \<longrightarrow>
              (\<exists>pre mid post. events_since w w' =
                 pre @ EvStart a None # mid @ EvWait a None # post) \<and>
              Process (heap w' a) = Some Reaped))"
  using assms
proof (cases rule: ExecPipeline_cases)
  case Empty
  then show ?thesis by (simp add: events_since_def)
next
  case (PipeFail k e)
  then show ?thesis by simp
next
  case (StartFail k e)
  let ?P = "pipes_made (butlast cmds)"
  let ?F = "EvStart (cmds ! k) (Some e)"
  have "\<exists>pre mid post. events_since w w' = pre @ EvStart a None # mid @ EvKill a # EvProcWait a # post"
    if "a \<in> set (take k cmds)" for a
  proof -
    from that obtain ys zs where s: "take k cmds = ys @ a # zs" by (auto simp: in_set_conv_decomp)
    have "events_since w w' =
        (?P @ starts ys) @ EvStart a None # (starts zs @ [?F] @ kills (rev zs)) @
          EvKill a # EvProcWait a # kills (rev ys)"
      by (simp add: StartFail(3) s shapes_Cons)
    then show ?thesis by blast
  qed
  then show ?thesis using StartFail by auto
next
  case (WaitFail k e)
  let ?P = "pipes_made (butlast cmds)"
  let ?F = "EvWait (cmds ! k) (Some e)"
  have "\<exists>pre mid post. events_since w w' = pre @ EvStart a None # mid @ EvKill a # EvProcWait a # post"
    if "a \<in> set cmds" for a
  proof -
    from that obtain ys zs where s: "cmds = ys @ a # zs" by (auto simp: in_set_conv_decomp)
    have "starts cmds = starts ys @ EvStart a None # starts zs"
      and "kills (rev cmds) = kills (rev zs) @ EvKill a # EvProcWait a # kills (rev ys)"
      by (subst s, simp add: shapes_Cons)+
    then have "events_since w w' =
        (?P @ starts ys) @ EvStart a None # (starts zs @ waits (take k cmds) @ [?F] @ kills (rev zs)) @
          EvKill a # EvProcWait a # kills (rev ys)"
      by (simp add: WaitFail(3))
    then show ?thesis by blast
  qed
  then show ?thesis using WaitFail by auto
next
  case Ok
  let ?P = "pipes_made (butlast cmds)"
  have "\<exists>pre mid post. events_since w w' = pre @ EvStart a None # mid @ EvWait a None # post"
    if "a \<in> set cmds" for a
  proof -
    from that obtain ys zs where s: "cmds = ys @ a # zs" by (auto simp: in_set_conv_decomp)
    have "starts cmds = starts ys @ EvStart a None # starts zs"
      and "waits cmds = waits ys @ EvWait a None # waits zs"
      by (subst s, simp add: shapes_Cons)+
    then have "events_since w w' =
        (?P @ starts ys) @ EvStart a None # (starts zs @ waits ys) @ EvWait a None # waits zs"
      by (simp add: Ok(3))
    then show ?thesis by blast
  qed
  then show ?thesis using Ok by auto
qed

theorem C1_cleanup_on_failure_witness:
  "fst (ExecPipeline sys_nostart [0, 1] None None None w0) \<noteq> None \<and>
   (\<exists>pre mid post.
      events_since w0 (snd (ExecPipeline sys_nostart [0, 1] None None None w0)) =
        pre @ EvStart 0 None # mid @ EvKill 0 # EvProcWait 0 # post) \<and>
   Process (heap (snd (ExecPipeline sys_nostart [0, 1] None None None w0)) 0) = Some Reaped \<and>
   fst (ExecPipeline sys_ok [0, 1] None None None w0) = None \<and>
   EvKill 0 \<notin> set (events_since w0 (snd (ExecPipeline sys_ok [0, 1] None None None w0))) \<and>
   Process (heap (snd (ExecPipeline sys_ok [0, 1] None None None w0)) 0) = Some Reaped"
proof -
  let ?bad = "ExecPipeline sys_nostart [0, 1] None None None w0"
  let ?good = "ExecPipeline sys_ok [0, 1] None None None w0"
  have bad: "?bad = (fst ?bad, snd ?bad)" and good: "?good = (fst ?good, snd ?good)"
    by simp_all
  have b1: "fst ?bad \<noteq> None"
    by (simp add: model_defs input_defs)
  have b2: "EvStart 0 None \<in> set (events_since w0 (snd ?bad))"
    by (simp add: model_defs input_defs)
  have g1: "fst ?good = None"
    by (simp add: model_defs input_defs)
  have g2: "EvStart 0 None \<in> set (events_since w0 (snd ?good))"
    by (simp add: model_defs input_defs)
  from C1_cleanup_on_failure [OF bad] C1_cleanup_on_failure [OF good] b1 b2 g1 g2
  show ?thesis by blast
qed

text \<open>
  C2, as stated, fails: with two commands started and the first \<^verbatim>\<open>Wait\<close> failing, the second
  command is never waited for with \<^verbatim>\<open>cmd.Wait\<close>; it is killed and reaped by its deferred
  closure.
\<close>

theorem C2_waiting_continues_counterexample:
  "fst (ExecPipeline sys_exit1 [0, 1] None None None w0) = Some ''echo exit status 1'' \<and>
   start_calls (events_since w0 (snd (ExecPipeline sys_exit1 [0, 1] None None None w0))) = [0, 1] \<and>
   wait_calls (events_since w0 (snd (ExecPipeline sys_exit1 [0, 1] None None None w0))) = [0] \<and>
   events_since w0 (snd (ExecPipeline sys_exit1 [0, 1] None None None w0)) =
     [EvStdoutPipe 0 None, EvStart 0 None, EvStart 1 None, EvWait 0 (Some ''exit status 1''),
      EvKill 1, EvProcWait 1, EvKill 0, EvProcWait 0]"
  by (simp add: model_defs input_defs)

text \<open>
  C2, amended.  \<^verbatim>\<open>ExecPipeline\<close> waits for the commands in the order of the slice, after all
  of them have started.  The first \<^verbatim>\<open>Wait\<close> that fails ends the waiting: its error is the one
  returned, tagged with that command's path, the commands after it are not waited for, and
  every command is sent \<^verbatim>\<open>SIGKILL\<close> and reaped by its deferred closure, the last started
  first, so every process ends reaped.  When the call returns nil, every command has been
  waited for, in order, and nothing else happened after the starts.
\<close>

theorem C2_first_wait_failure_ends_waiting:
  assumes "ExecPipeline sys cmds stdin stdout stderr w = (r, w')"
  shows "(\<forall>a e. EvWait a (Some e) \<in> set (events_since w w') \<longrightarrow>
           (\<exists>k<length cmds. cmds ! k = a \<and> r = Some (Path (heap w a) @ '' '' @ e) \<and>
              wait_calls (events_since w w') = take (Suc k) cmds \<and>
              events_since w w' =
                pipes_made (butlast cmds) @ starts cmds @ waits (take k cmds) @
                  [EvWait a (Some e)] @ kills (rev cmds) \<and>
              (\<forall>b\<in>set cmds. Process (heap w' b) = Some Reaped))) \<and>
         (r = None \<longrightarrow>
            wait_calls (events_since w w') = cmds \<and>
            events_since w w' = pipes_made (butlast cmds) @ starts cmds @ waits cmds \<and>
            (\<forall>b\<in>set cmds. Process (heap w' b) = Some Reaped))"
  using assms
proof (cases rule: ExecPipeline_cases)
  case Empty
  then show ?thesis by (simp add: events_since_def)
next
  case (PipeFail k e)
  then show ?thesis by simp
next
  case (StartFail k e)
  then show ?thesis by simp
next
  case (WaitFail k e)
  have "take k cmds @ [cmds ! k] = take (Suc k) cmds"
    using WaitFail(1) by (simp add: take_Suc_conv_app_nth)
  then show ?thesis using WaitFail
    by (auto simp: errorf_path_def intro!: exI [of _ k])
next
  case Ok
  then show ?thesis by simp
qed

theorem C2_first_wait_failure_ends_waiting_witness:
  "EvWait 0 (Some ''exit status 1'') \<in>
     set (events_since w0 (snd (ExecPipeline sys_exit1 [0, 1, 2] None None None w0))) \<and>
   (\<exists>k<length [0, 1, 2::nat]. [0, 1, 2] ! k = (0::nat) \<and>
      fst (ExecPipeline sys_exit1 [0, 1, 2] None None None w0) =
        Some (Path (heap w0 0) @ '' '' @ ''exit status 1'') \<and>
      wait_calls (events_since w0 (snd (ExecPipeline sys_exit1 [0, 1, 2] None None None w0))) =
        take (Suc k) [0, 1, 2]) \<and>
   Process (heap (snd (ExecPipeline sys_exit1 [0, 1, 2] None None None w0)) 2) = Some Reaped \<and>
   fst (ExecPipeline sys_ok [0, 1, 2] None None None w0) = None \<and>
   wait_calls (events_since w0 (snd (ExecPipeline sys_ok [0, 1, 2] None None None w0))) = [0, 1, 2]"
proof -
  let ?bad = "ExecPipeline sys_exit1 [0, 1, 2] None None None w0"
  let ?good = "ExecPipeline sys_ok [0, 1, 2] None None None w0"
  have bad: "?bad = (fst ?bad, snd ?bad)" and good: "?good = (fst ?good, snd ?good)"
    by simp_all
  have b1: "EvWait 0 (Some ''exit status 1'') \<in> set (events_since w0 (snd ?bad))"
    by (simp add: model_defs input_defs)
  have g1: "fst ?good = None"
    by (simp add: model_defs input_defs)
  from C2_first_wait_failure_ends_waiting [OF bad] b1
  have "\<exists>k<length [0, 1, 2::nat]. [0, 1, 2] ! k = (0::nat) \<and>
      fst ?bad = Some (Path (heap w0 0) @ '' '' @ ''exit status 1'') \<and>
      wait_calls (events_since w0 (snd ?bad)) = take (Suc k) [0, 1, 2] \<and>
      events_since w0 (snd ?bad) =
                pipes_made (butlast [0, 1, 2]) @ starts [0, 1, 2] @ waits (take k [0, 1, 2]) @
                  [EvWait 0 (Some ''exit status 1'')] @ kills (rev [0, 1, 2]) \<and>
      (\<forall>b\<in>set [0, 1, 2]. Process (heap (snd ?bad) b) = Some Reaped)"
    by blast
  moreover from C2_first_wait_failure_ends_waiting [OF good] g1
  have "wait_calls (events_since w0 (snd ?good)) = [0, 1, 2]"
    by blast
  ultimately show ?thesis using b1 g1 by auto
qed

text \<open>
  C3, as stated, fails for \<^verbatim>\<open>ExecO\<close>: the command has written \<^verbatim>\<open>partial\<close> to the private output
  buffer and exits with status 1; \<^verbatim>\<open>ExecO\<close> returns the nil slice with the error, not the
  buffer's bytes.
\<close>

theorem C3_ExecO_returns_nil_on_error_counterexample:
  "fst (ExecO sys_exit1 0 None w0) = ([], Some ''echo exit status 1 - boom'') \<and>
   written (snd (ExecO sys_exit1 0 None w0)) StdoutBuffer = ''partial''"
  by (simp add: model_defs input_defs)

text \<open>
  C3, amended.  \<^verbatim>\<open>ExecPipelineO\<close> returns the bytes of its private output buffer together
  with the error, whether the error is nil or not; on success that buffer is what the last
  command's output was attached to.  \<^verbatim>\<open>ExecO\<close> attaches its private buffer as the command's
  output and returns the buffer's bytes when the error is nil; when the error is not nil it
  returns the nil slice.
\<close>

theorem C3_captured_output_returned:
  "fst (fst (ExecPipelineO sys cmds stdin w)) =
     written (snd (ExecPipelineO sys cmds stdin w)) StdoutBuffer \<and>
   (cmds \<noteq> [] \<and> distinct cmds \<and> snd (fst (ExecPipelineO sys cmds stdin w)) = None \<longrightarrow>
      Stdout (heap (snd (ExecPipelineO sys cmds stdin w)) (cmds ! (length cmds - 1))) =
        Some StdoutBuffer) \<and>
   (snd (fst (ExecO sys cmd stdin w)) = None \<longrightarrow>
      fst (fst (ExecO sys cmd stdin w)) = written (snd (ExecO sys cmd stdin w)) StdoutBuffer) \<and>
   (snd (fst (ExecO sys cmd stdin w)) \<noteq> None \<longrightarrow> fst (fst (ExecO sys cmd stdin w)) = []) \<and>
   Stdout (heap (snd (ExecO sys cmd stdin w)) cmd) = Some StdoutBuffer"
proof -
  define wo where "wo = new_buffer StdoutBuffer w"
  define we where "we = new_buffer StderrBuffer wo"
  have one: "snd (ExecO sys cmd stdin w) =
      snd (Exec sys cmd stdin (Some StdoutBuffer) (Some StderrBuffer) we)"
    by (simp add: ExecO_def ExecE_def wo_def we_def split: prod.splits option.splits)
  have o: "Stdout (heap (snd (ExecO sys cmd stdin w)) cmd) = Some StdoutBuffer"
    using Exec_streams [of sys cmd stdin "Some StdoutBuffer" "Some StderrBuffer" we]
    by (simp add: one or_discard_def)
  have p: "Stdout (heap (snd (ExecPipelineO sys cmds stdin w)) (cmds ! (length cmds - 1))) =
        Some StdoutBuffer"
    if ne: "cmds \<noteq> []" and di: "distinct cmds"
      and ok: "snd (fst (ExecPipelineO sys cmds stdin w)) = None"
  proof -
    obtain r w' where
      run: "ExecPipeline sys cmds stdin (Some StdoutBuffer) (Some StderrBuffer) we = (r, w')"
      by (cases "ExecPipeline sys cmds stdin (Some StdoutBuffer) (Some StderrBuffer) we")
    from ok run have r: "r = None"
      by (cases r) (simp_all add: ExecPipelineO_def ExecPipelineE_def wo_def we_def)
    from run have w': "snd (ExecPipelineO sys cmds stdin w) = w'"
      by (cases r) (simp_all add: ExecPipelineO_def ExecPipelineE_def wo_def we_def)
    from ExecPipeline_wired [OF run ne di ExecPipeline_nil_connect [OF run [unfolded r]]]
    show ?thesis by (simp add: wired_def w' or_discard_def)
  qed
  have "fst (fst (ExecPipelineO sys cmds stdin w)) =
      written (snd (ExecPipelineO sys cmds stdin w)) StdoutBuffer \<and>
    (snd (fst (ExecO sys cmd stdin w)) = None \<longrightarrow>
      fst (fst (ExecO sys cmd stdin w)) = written (snd (ExecO sys cmd stdin w)) StdoutBuffer) \<and>
    (snd (fst (ExecO sys cmd stdin w)) \<noteq> None \<longrightarrow> fst (fst (ExecO sys cmd stdin w)) = [])"
    by (simp add: ExecPipelineO_def ExecO_def split: prod.splits option.splits)
  with o p show ?thesis by blast
qed

theorem C3_captured_output_returned_witness:
  "fst (ExecPipelineO sys_exit1 [0, 1] None w0) = (''partial'', Some ''echo exit status 1 - boom'') \<and>
   fst (ExecPipelineO sys_hello [0, 1] None w0) = (''hello'', None) \<and>
   fst (ExecO sys_hello 0 None w0) = (''hello'', None) \<and>
   fst (ExecO sys_exit1 0 None w0) = ([], Some ''echo exit status 1 - boom'')"
proof -
  note a = C3_captured_output_returned [of sys_exit1 "[0, 1]" None w0 0]
  note b = C3_captured_output_returned [of sys_hello "[0, 1]" None w0 0]
  have a1: "written (snd (ExecPipelineO sys_exit1 [0, 1] None w0)) StdoutBuffer = ''partial''"
    by (simp add: model_defs input_defs)
  have a2: "snd (fst (ExecPipelineO sys_exit1 [0, 1] None w0)) = Some ''echo exit status 1 - boom''"
    by (simp add: model_defs input_defs)
  have a3: "snd (fst (ExecO sys_exit1 0 None w0)) = Some ''echo exit status 1 - boom''"
    by (simp add: model_defs input_defs)
  have b1: "written (snd (ExecPipelineO sys_hello [0, 1] None w0)) StdoutBuffer = ''hello''"
    by (simp add: model_defs input_defs)
  have b2: "snd (fst (ExecPipelineO sys_hello [0, 1] None w0)) = None"
    by (simp add: model_defs input_defs)
  have b3: "snd (fst (ExecO sys_hello 0 None w0)) = None"
    by (simp add: model_defs input_defs)
  have b4: "written (snd (ExecO sys_hello 0 None w0)) StdoutBuffer = ''hello''"
    by (simp add: model_defs input_defs)
  have "fst (fst (ExecPipelineO sys_exit1 [0, 1] None w0)) = ''partial''"
    using a a1 by simp
  moreover have "fst (fst (ExecPipelineO sys_hello [0, 1] None w0)) = ''hello''"
    using b b1 by simp
  moreover have "fst (fst (ExecO sys_hello 0 None w0)) = ''hello''"
    using b b3 b4 by simp
  moreover have "fst (fst (ExecO sys_exit1 0 None w0)) = []"
    using a a3 by simp
  ultimately show ?thesis using a2 a3 b2 b3
    by (simp add: prod_eq_iff)
qed

text \<open>
  C4, as stated, fails for a slice that holds one command twice: with \<^verbatim>\<open>[c, c]\<close> no pipe fails,
  yet \<^verbatim>\<open>c\<close> ends with the read end of the pipe as its input and the discard sink, not the
  write end, as its output, so the output of descriptor 0 is not the input of descriptor 1;
  the second \<^verbatim>\<open>Start\<close> then fails.
\<close>

theorem C4_aliased_pipeline_counterexample:
  "fst (connect sys_once [0, 0] None None None w0) = None \<and>
   Stdin (heap (snd (snd (connect sys_once [0, 0] None None None w0))) 0) = Some (PipeReader 0) \<and>
   Stdout (heap (snd (snd (connect sys_once [0, 0] None None None w0))) 0) = Some Discard \<and>
   \<not> wired [0, 0] None None None 0 (heap w0)
       (heap (snd (snd (connect sys_once [0, 0] None None None w0)))) \<and>
   fst (ExecPipeline sys_once [0, 0] None None None w0) = Some ''echo exec: already started'' \<and>
   Stdin (heap (snd (ExecPipeline sys_once [0, 0] None None None w0)) 0) = Some (PipeReader 0) \<and>
   Stdout (heap (snd (ExecPipeline sys_once [0, 0] None None None w0)) 0) = Some Discard"
  by (simp add: model_defs input_defs wired_def)

text \<open>
  C4, amended.  For a pipeline of \<open>n \<ge> 1\<close> commands, the part of \<^verbatim>\<open>ExecPipeline\<close> that runs before
  the first \<^verbatim>\<open>Start\<close> (\<open>connect\<close>) starts nothing.  When no pipe fails, it makes one pipe per
  adjacent pair, left to right, the last command has the caller's output or the discard
  sink, every command has the one error destination, and the commands are started from
  that state.  When moreover no command occurs twice in the slice, the pipeline is wired:
  the output of command \<open>i\<close> is the write end and the input of command \<open>i + 1\<close> the read end
  of the same pipe, and command 0 has the caller's input if one was given and its own
  input otherwise; it is still wired so when the call returns.  When a pipe fails, the call
  returns the path of that stage, a space and the error text, and in the state \<open>connect\<close>
  left, so that no command was started.
\<close>

theorem C4_wiring_before_any_start:
  assumes "cmds \<noteq> []"
    and "connect sys cmds stdin stdout stderr w = (r, err, w1)"
  shows "start_calls (events_since w w1) = [] \<and>
         (r = None \<longrightarrow>
            events_since w w1 = pipes_made (butlast cmds) \<and>
            ExecPipeline sys cmds stdin stdout stderr w = run sys cmds None w1 \<and>
            Stdout (heap w1 (cmds ! (length cmds - 1))) =
              Some (case stdout of None \<Rightarrow> Discard | Some s \<Rightarrow> s) \<and>
            (\<forall>i<length cmds.
               Stderr (heap w1 (cmds ! i)) = Some (case stderr of None \<Rightarrow> Discard | Some s \<Rightarrow> s)) \<and>
            (distinct cmds \<longrightarrow>
               wired cmds stdin stdout stderr (pipes w) (heap w) (heap w1) \<and>
               wired cmds stdin stdout stderr (pipes w) (heap w)
                 (heap (snd (run sys cmds None w1))))) \<and>
         (\<forall>t. r = Some t \<longrightarrow>
            ExecPipeline sys cmds stdin stdout stderr w = (Some t, w1) \<and>
            (\<exists>k e. k < length cmds - 1 \<and> t = Path (heap w (cmds ! k)) @ '' '' @ e \<and>
               events_since w w1 = pipes_made (take k cmds) @ [EvStdoutPipe (cmds ! k) (Some e)]))"
proof (cases r)
  case None
  note c = assms(2) [unfolded None]
  from connect_ok [OF c] have e: "err = None"
    and tr: "events_since w w1 = pipes_made (butlast cmds)"
    by (simp_all add: events_sinceI)
  have p: "ExecPipeline sys cmds stdin stdout stderr w = run sys cmds None w1"
    using assms(1) c e by (simp add: ExecPipeline_def)
  have dest: "Stdout (heap w1 (cmds ! (length cmds - 1))) =
              Some (case stdout of None \<Rightarrow> Discard | Some s \<Rightarrow> s) \<and>
            (\<forall>i<length cmds.
               Stderr (heap w1 (cmds ! i)) = Some (case stderr of None \<Rightarrow> Discard | Some s \<Rightarrow> s))"
    using connect_destinations [OF c assms(1)] by (simp add: or_discard_def)
  have wi: "wired cmds stdin stdout stderr (pipes w) (heap w) (heap w1) \<and>
            wired cmds stdin stdout stderr (pipes w) (heap w) (heap (snd (run sys cmds None w1)))"
    if di: "distinct cmds"
  proof -
    have w1: "wired cmds stdin stdout stderr (pipes w) (heap w) (heap w1)"
      by (rule connect_wired [OF c assms(1) di])
    obtain r' w' where run: "run sys cmds None w1 = (r', w')" by (cases "run sys cmds None w1")
    have "wired cmds stdin stdout stderr (pipes w) (heap w) (heap w')"
      using w1 run_frame [OF run] by (simp add: wired_def)
    with w1 run show ?thesis by simp
  qed
  show ?thesis using None tr p dest wi by simp
next
  case (Some t)
  note c = assms(2) [unfolded Some]
  from connect_fail [OF c] obtain k e where k: "k < length cmds - 1"
    and t: "t = errorf_path (Path (heap w (cmds ! k))) e"
    and tr: "trace w1 = trace w @ pipes_made (take k cmds) @ [EvStdoutPipe (cmds ! k) (Some e)]"
    by blast
  have ev: "events_since w w1 = pipes_made (take k cmds) @ [EvStdoutPipe (cmds ! k) (Some e)]"
    using tr by (rule events_sinceI)
  have p: "ExecPipeline sys cmds stdin stdout stderr w = (Some t, w1)"
    using assms(1) c by (simp add: ExecPipeline_def)
  have st: "start_calls (events_since w w1) = []"
    by (simp add: ev)
  have "\<exists>k e. k < length cmds - 1 \<and> t = Path (heap w (cmds ! k)) @ '' '' @ e \<and>
               events_since w w1 = pipes_made (take k cmds) @ [EvStdoutPipe (cmds ! k) (Some e)]"
    using k t ev by (auto simp: errorf_path_def)
  then show ?thesis using Some p st by simp
qed

theorem C4_wiring_before_any_start_witness:
  "fst (connect sys_ok [0, 1, 2] (Some (Extern 7)) (Some (Extern 4)) None w0) = None \<and>
   wired [0, 1, 2] (Some (Extern 7)) (Some (Extern 4)) None 0 (heap w0)
     (heap (snd (snd (connect sys_ok [0, 1, 2] (Some (Extern 7)) (Some (Extern 4)) None w0)))) \<and>
   trace (snd (snd (connect sys_ok [0, 1, 2] (Some (Extern 7)) (Some (Extern 4)) None w0))) =
     [EvStdoutPipe 0 None, EvStdoutPipe 1 None] \<and>
   map (heap (snd (ExecPipeline sys_ok [0, 1, 2] (Some (Extern 7)) (Some (Extern 4)) None w0))) [0, 1, 2] =
     [\<lparr>Path = ''echo'', Stdin = Some (Extern 7), Stdout = Some (PipeWriter 0),
       Stderr = Some Discard, Process = Some Reaped\<rparr>,
      \<lparr>Path = ''tr'', Stdin = Some (PipeReader 0), Stdout = Some (PipeWriter 1),
       Stderr = Some Discard, Process = Some Reaped\<rparr>,
      \<lparr>Path = ''wc'', Stdin = Some (PipeReader 1), Stdout = Some (Extern 4),
       Stderr = Some Discard, Process = Some Reaped\<rparr>] \<and>
   ExecPipeline sys_nopipe [0, 1, 2] None None None w0 =
     (Some ''echo too many open files'',
      snd (snd (connect sys_nopipe [0, 1, 2] None None None w0))) \<and>
   trace (snd (ExecPipeline sys_nopipe [0, 1, 2] None None None w0)) =
     [EvStdoutPipe 0 (Some ''too many open files'')]"
proof -
  let ?ok = "connect sys_ok [0, 1, 2] (Some (Extern 7)) (Some (Extern 4)) None w0"
  let ?bad = "connect sys_nopipe [0, 1, 2] None None None w0"
  have d: "[0, 1, 2::nat] \<noteq> []" and di: "distinct [0, 1, 2::nat]" by simp_all
  have ok: "?ok = (fst ?ok, fst (snd ?ok), snd (snd ?ok))"
    and bad: "?bad = (fst ?bad, fst (snd ?bad), snd (snd ?bad))" by simp_all
  have a: "fst ?ok = None"
    by (simp add: model_defs input_defs)
  have b: "fst ?bad = Some ''echo too many open files''"
    by (simp add: model_defs input_defs)
  have c: "trace (snd (snd ?ok)) = [EvStdoutPipe 0 None, EvStdoutPipe 1 None]"
    by (simp add: model_defs input_defs)
  have e: "map (heap (snd (ExecPipeline sys_ok [0, 1, 2] (Some (Extern 7)) (Some (Extern 4)) None w0))) [0, 1, 2] =
     [\<lparr>Path = ''echo'', Stdin = Some (Extern 7), Stdout = Some (PipeWriter 0),
       Stderr = Some Discard, Process = Some Reaped\<rparr>,
      \<lparr>Path = ''tr'', Stdin = Some (PipeReader 0), Stdout = Some (PipeWriter 1),
       Stderr = Some Discard, Process = Some Reaped\<rparr>,
      \<lparr>Path = ''wc'', Stdin = Some (PipeReader 1), Stdout = Some (Extern 4),
       Stderr = Some Discard, Process = Some Reaped\<rparr>]"
    by (simp add: model_defs input_defs)
  have f: "trace (snd (snd ?bad)) = [EvStdoutPipe 0 (Some ''too many open files'')]"
    by (simp add: model_defs input_defs)
  have p0: "pipes w0 = 0" by (simp add: w0_def)
  from C4_wiring_before_any_start [OF d ok] a p0 di
  have "wired [0, 1, 2] (Some (Extern 7)) (Some (Extern 4)) None 0 (heap w0) (heap (snd (snd ?ok)))"
    by simp
  moreover from C4_wiring_before_any_start [OF d bad] b
  have "ExecPipeline sys_nopipe [0, 1, 2] None None None w0 =
     (Some ''echo too many open files'', snd (snd ?bad))"
    by simp
  ultimately show ?thesis using a c e f by simp
qed

text \<open>
  C5.  \<^verbatim>\<open>ExecPipeline\<close> starts the commands in the order of the slice.  When a \<^verbatim>\<open>Start\<close> fails,
  it is the start of some command \<open>k\<close>: commands 0 to \<open>k\<close> are the only ones a start was
  attempted for, no command is waited for, the error returned is the path of command \<open>k\<close>,
  a space and the error text of the operating system, and each of the commands before \<open>k\<close>
  is sent \<^verbatim>\<open>SIGKILL\<close> and reaped before the call returns.
\<close>

theorem C5_start_failure_stops_and_cleans_up:
  assumes "ExecPipeline sys cmds stdin stdout stderr w = (r, w')"
    and "EvStart a (Some e) \<in> set (events_since w w')"
  shows "\<exists>k<length cmds. cmds ! k = a \<and> r = Some (Path (heap w a) @ '' '' @ e) \<and>
           start_calls (events_since w w') = take (Suc k) cmds \<and>
           wait_calls (events_since w w') = [] \<and>
           events_since w w' =
             pipes_made (butlast cmds) @ starts (take k cmds) @ [EvStart a (Some e)] @
               kills (rev (take k cmds)) \<and>
           (\<forall>j<k. Process (heap w' (cmds ! j)) = Some Reaped)"
  using assms(1)
proof (cases rule: ExecPipeline_cases)
  case Empty
  with assms(2) show ?thesis by (simp add: events_since_def)
next
  case (PipeFail k e)
  with assms(2) show ?thesis by simp
next
  case (StartFail k x)
  from assms(2) have a: "a = cmds ! k" and e: "e = x"
    by (simp_all add: StartFail(3))
  have t: "take k cmds @ [cmds ! k] = take (Suc k) cmds"
    using StartFail(1) by (simp add: take_Suc_conv_app_nth)
  have "\<forall>j<k. cmds ! j \<in> set (take k cmds)"
    using StartFail(1) by (auto simp: in_set_conv_nth intro!: exI)
  then show ?thesis using StartFail a e t
    by (auto simp: errorf_path_def intro!: exI [of _ k])
next
  case (WaitFail k e)
  with assms(2) show ?thesis by simp
next
  case Ok
  with assms(2) show ?thesis by simp
qed

theorem C5_start_failure_stops_and_cleans_up_witness:
  "EvStart 1 (Some ''executable file not found'') \<in>
     set (events_since w0 (snd (ExecPipeline sys_nostart [0, 1, 2] None None None w0))) \<and>
   fst (ExecPipeline sys_nostart [0, 1, 2] None None None w0) =
     Some ''tr executable file not found'' \<and>
   start_calls (events_since w0 (snd (ExecPipeline sys_nostart [0, 1, 2] None None None w0))) = [0, 1] \<and>
   events_since w0 (snd (ExecPipeline sys_nostart [0, 1, 2] None None None w0)) =
     [EvStdoutPipe 0 None, EvStdoutPipe 1 None, EvStart 0 None,
      EvStart 1 (Some ''executable file not found''), EvKill 0, EvProcWait 0] \<and>
   Process (heap (snd (ExecPipeline sys_nostart [0, 1, 2] None None None w0)) 0) = Some Reaped"
proof -
  let ?bad = "ExecPipeline sys_nostart [0, 1, 2] None None None w0"
  have bad: "?bad = (fst ?bad, snd ?bad)" by simp
  have b1: "EvStart 1 (Some ''executable file not found'') \<in> set (events_since w0 (snd ?bad))"
    by (simp add: model_defs input_defs)
  from C5_start_failure_stops_and_cleans_up [OF bad b1]
  obtain k where k: "k < length [0, 1, 2::nat]" "[0, 1, 2] ! k = (1::nat)"
    and r: "fst ?bad = Some (Path (heap w0 1) @ '' '' @ ''executable file not found'')"
    and s: "start_calls (events_since w0 (snd ?bad)) = take (Suc k) [0, 1, 2]"
    and t: "events_since w0 (snd ?bad) =
             pipes_made (butlast [0, 1, 2]) @ starts (take k [0, 1, 2]) @
               [EvStart 1 (Some ''executable file not found'')] @ kills (rev (take k [0, 1, 2]))"
    and p: "\<forall>j<k. Process (heap (snd ?bad) ([0, 1, 2] ! j)) = Some Reaped"
    by blast
  from k have k1: "k = 1" by (auto simp: less_Suc_eq numeral_3_eq_3)
  show ?thesis using b1 r s t p
    by (simp add: k1 w0_def pipes_made_def starts_def kills_def)
qed

text \<open>
  C6.  Given no command, \<^verbatim>\<open>ExecPipeline\<close> returns the error
  \<^verbatim>\<open>No commands provided to ExecPipeline\<close> and the state it was given: no call into
  \<^verbatim>\<open>os/exec\<close> is made and no command is changed.  \<^verbatim>\<open>ExecPipelineE\<close> and \<^verbatim>\<open>ExecPipelineO\<close>
  return that error (with the empty captured text appended), make no call and change no
  command either.
\<close>

theorem C6_empty_pipeline_rejected:
  "ExecPipeline sys [] stdin stdout stderr w = (Some ''No commands provided to ExecPipeline'', w) \<and>
   fst (ExecPipelineE sys [] stdin stdout w) = Some ''No commands provided to ExecPipeline - '' \<and>
   trace (snd (ExecPipelineE sys [] stdin stdout w)) = trace w \<and>
   pipes (snd (ExecPipelineE sys [] stdin stdout w)) = pipes w \<and>
   heap (snd (ExecPipelineE sys [] stdin stdout w)) = heap w \<and>
   fst (ExecPipelineO sys [] stdin w) = ([], Some ''No commands provided to ExecPipeline - '') \<and>
   trace (snd (ExecPipelineO sys [] stdin w)) = trace w \<and>
   pipes (snd (ExecPipelineO sys [] stdin w)) = pipes w \<and>
   heap (snd (ExecPipelineO sys [] stdin w)) = heap w"
  by (simp add: ExecPipeline_def ExecPipelineE_def ExecPipelineO_def errorf_captured_def)

theorem C6_empty_pipeline_rejected_witness:
  "fst (ExecPipeline sys_ok [] (Some (Extern 3)) None None w0) =
     Some ''No commands provided to ExecPipeline'' \<and>
   trace (snd (ExecPipeline sys_ok [] (Some (Extern 3)) None None w0)) = [] \<and>
   Stdin (heap (snd (ExecPipeline sys_ok [] (Some (Extern 3)) None None w0)) 0) = None \<and>
   fst (ExecPipelineO sys_ok [] (Some (Extern 3)) w0) =
     ([], Some ''No commands provided to ExecPipeline - '') \<and>
   trace (snd (ExecPipelineO sys_ok [] (Some (Extern 3)) w0)) = []"
  using C6_empty_pipeline_rejected [of sys_ok "Some (Extern 3)" None None w0]
  by (simp add: w0_def)

text \<open>
  C7.  Whenever a \<^verbatim>\<open>Start\<close> or a \<^verbatim>\<open>Wait\<close> fails inside \<^verbatim>\<open>Exec\<close> or \<^verbatim>\<open>ExecPipeline\<close>, the error
  returned is the path of the command that failed, a space and the error text.  \<^verbatim>\<open>ExecE\<close>
  and \<^verbatim>\<open>ExecPipelineE\<close> turn an error \<open>u\<close> of the executor underneath into \<open>u\<close>, the three
  characters \<^verbatim>\<open> - \<close> and the text captured in the error buffer; \<^verbatim>\<open>ExecStdin\<close>, \<^verbatim>\<open>ExecStdout\<close>,
  \<^verbatim>\<open>ExecO\<close> and \<^verbatim>\<open>ExecPipelineO\<close> return the error of \<^verbatim>\<open>ExecE\<close> or \<^verbatim>\<open>ExecPipelineE\<close> as it is.
\<close>

theorem C7_error_text_format:
  "(Exec sys cmd stdin stdout stderr w = (r1, w1) \<longrightarrow>
      (\<forall>e. EvStart cmd (Some e) \<in> set (events_since w w1) \<or>
            EvWait cmd (Some e) \<in> set (events_since w w1) \<longrightarrow>
         r1 = Some (Path (heap w cmd) @ '' '' @ e))) \<and>
   (ExecPipeline sys cmds stdin stdout stderr w = (r2, w2) \<longrightarrow>
      (\<forall>a e. EvStart a (Some e) \<in> set (events_since w w2) \<or>
              EvWait a (Some e) \<in> set (events_since w w2) \<longrightarrow>
         r2 = Some (Path (heap w a) @ '' '' @ e))) \<and>
   (\<forall>u wu. Exec sys cmd stdin stdout (Some StderrBuffer) (new_buffer StderrBuffer w) = (Some u, wu) \<longrightarrow>
      ExecE sys cmd stdin stdout w = (Some (u @ '' - '' @ written wu StderrBuffer), wu)) \<and>
   (\<forall>u wu. ExecPipeline sys cmds stdin stdout (Some StderrBuffer) (new_buffer StderrBuffer w) = (Some u, wu) \<longrightarrow>
      ExecPipelineE sys cmds stdin stdout w = (Some (u @ '' - '' @ written wu StderrBuffer), wu)) \<and>
   ExecStdin sys cmd stdin w = ExecE sys cmd stdin None w \<and>
   ExecStdout sys cmd stdout w = ExecE sys cmd None stdout w \<and>
   snd (fst (ExecO sys cmd stdin w)) =
     fst (ExecE sys cmd stdin (Some StdoutBuffer) (new_buffer StdoutBuffer w)) \<and>
   snd (fst (ExecPipelineO sys cmds stdin w)) =
     fst (ExecPipelineE sys cmds stdin (Some StdoutBuffer) (new_buffer StdoutBuffer w))"
proof -
  have one: "r1 = Some (Path (heap w cmd) @ '' '' @ e)"
    if run: "Exec sys cmd stdin stdout stderr w = (r1, w1)"
      and ev: "EvStart cmd (Some e) \<in> set (events_since w w1) \<or>
               EvWait cmd (Some e) \<in> set (events_since w w1)" for e
    using run
  proof (cases rule: Exec_cases)
    case (StartFail x)
    with ev show ?thesis by (auto simp: errorf_path_def)
  next
    case (WaitFail x)
    with ev show ?thesis by (auto simp: errorf_path_def)
  next
    case Ok
    with ev show ?thesis by simp
  qed
  have many: "r2 = Some (Path (heap w a) @ '' '' @ e)"
    if run: "ExecPipeline sys cmds stdin stdout stderr w = (r2, w2)"
      and ev: "EvStart a (Some e) \<in> set (events_since w w2) \<or>
               EvWait a (Some e) \<in> set (events_since w w2)" for a e
    using run
  proof (cases rule: ExecPipeline_cases)
    case Empty
    with ev show ?thesis by (simp add: events_since_def)
  next
    case (PipeFail k x)
    with ev show ?thesis by simp
  next
    case (StartFail k x)
    with ev show ?thesis by (auto simp: errorf_path_def)
  next
    case (WaitFail k x)
    with ev show ?thesis by (auto simp: errorf_path_def)
  next
    case Ok
    with ev show ?thesis by simp
  qed
  have e1: "ExecE sys cmd stdin stdout w = (Some (u @ '' - '' @ written wu StderrBuffer), wu)"
    if "Exec sys cmd stdin stdout (Some StderrBuffer) (new_buffer StderrBuffer w) = (Some u, wu)"
    for u wu
    using that by (simp add: ExecE_def errorf_captured_def)
  have e2: "ExecPipelineE sys cmds stdin stdout w = (Some (u @ '' - '' @ written wu StderrBuffer), wu)"
    if "ExecPipeline sys cmds stdin stdout (Some StderrBuffer) (new_buffer StderrBuffer w) = (Some u, wu)"
    for u wu
    using that by (simp add: ExecPipelineE_def errorf_captured_def)
  have o1: "snd (fst (ExecO sys cmd stdin w)) =
     fst (ExecE sys cmd stdin (Some StdoutBuffer) (new_buffer StdoutBuffer w))"
    by (simp add: ExecO_def split: prod.splits option.splits)
  have o2: "snd (fst (ExecPipelineO sys cmds stdin w)) =
     fst (ExecPipelineE sys cmds stdin (Some StdoutBuffer) (new_buffer StdoutBuffer w))"
    by (simp add: ExecPipelineO_def split: prod.splits)
  show ?thesis
    using one many e1 e2 o1 o2 by (simp add: ExecStdin_def ExecStdout_def)
qed

theorem C7_error_text_format_witness:
  "EvWait 0 (Some ''exit status 1'') \<in>
     set (events_since w0 (snd (Exec sys_exit1 0 None None None w0))) \<and>
   fst (Exec sys_exit1 0 None None None w0) = Some ''echo exit status 1'' \<and>
   EvStart 1 (Some ''executable file not found'') \<in>
     set (events_since w0 (snd (ExecPipeline sys_nostart [0, 1] None None None w0))) \<and>
   fst (ExecPipeline sys_nostart [0, 1] None None None w0) = Some ''tr executable file not found'' \<and>
   fst (ExecE sys_exit1 0 None None w0) = Some ''echo exit status 1 - boom'' \<and>
   fst (ExecPipelineE sys_exit1 [0, 1] None None w0) = Some ''echo exit status 1 - boom''"
proof -
  let ?one = "Exec sys_exit1 0 None None None w0"
  let ?many = "ExecPipeline sys_nostart [0, 1] None None None w0"
  let ?oneE = "Exec sys_exit1 0 None None (Some StderrBuffer) (new_buffer StderrBuffer w0)"
  let ?manyE = "ExecPipeline sys_exit1 [0, 1] None None (Some StderrBuffer) (new_buffer StderrBuffer w0)"
  note c7 = C7_error_text_format [of sys_exit1 0 None None None w0 "fst ?one" "snd ?one"
      "[0, 1]" "fst ?manyE" "snd ?manyE"]
  note c7' = C7_error_text_format [of sys_nostart 0 None None None w0 "fst (Exec sys_nostart 0 None None None w0)"
      "snd (Exec sys_nostart 0 None None None w0)" "[0, 1]" "fst ?many" "snd ?many"]
  have a: "EvWait 0 (Some ''exit status 1'') \<in> set (events_since w0 (snd ?one))"
    by (simp add: model_defs input_defs)
  have b: "EvStart 1 (Some ''executable file not found'') \<in> set (events_since w0 (snd ?many))"
    by (simp add: model_defs input_defs)
  have c: "?oneE = (Some ''echo exit status 1'', snd ?oneE)"
    by (simp add: model_defs input_defs)
  have d: "?manyE = (Some ''echo exit status 1'', snd ?manyE)"
    by (simp add: model_defs input_defs)
  have e: "written (snd ?oneE) StderrBuffer = ''boom''"
    by (simp add: model_defs input_defs)
  have f: "written (snd ?manyE) StderrBuffer = ''boom''"
    by (simp add: model_defs input_defs)
  have "fst ?one = Some (Path (heap w0 0) @ '' '' @ ''exit status 1'')"
    using c7 a by simp
  moreover have "fst ?many = Some (Path (heap w0 1) @ '' '' @ ''executable file not found'')"
    using c7' b by simp
  moreover have "ExecE sys_exit1 0 None None w0 =
      (Some (''echo exit status 1'' @ '' - '' @ written (snd ?oneE) StderrBuffer), snd ?oneE)"
    using c7 c by blast
  moreover have "ExecPipelineE sys_exit1 [0, 1] None None w0 =
      (Some (''echo exit status 1'' @ '' - '' @ written (snd ?manyE) StderrBuffer), snd ?manyE)"
    using c7 d by blast
  ultimately show ?thesis using a b e f by (simp add: w0_def)
qed

text \<open>
  C8.  When \<^verbatim>\<open>ExecE\<close> or \<^verbatim>\<open>ExecPipelineE\<close> returns an error, the private error buffer is what
  the command's \<^verbatim>\<open>Stderr\<close> is attached to (every command's, in a pipeline whose pipes were
  made), and the error text is the error of the executor underneath, \<^verbatim>\<open> - \<close> and the text the
  buffer holds, so it ends with that text.  When the operating system delivers no bytes to
  the error buffer, the buffer, which starts empty, is empty and the text is that error
  and \<^verbatim>\<open> - \<close> with nothing after it.
\<close>

theorem C8_captured_text_in_error:
  "(ExecE sys cmd stdin stdout w = (Some t1, w1) \<longrightarrow>
      Stderr (heap w1 cmd) = Some StderrBuffer \<and>
      suffix (written w1 StderrBuffer) t1 \<and>
      (\<exists>u. fst (Exec sys cmd stdin stdout (Some StderrBuffer) (new_buffer StderrBuffer w)) = Some u \<and>
           t1 = u @ '' - '' @ written w1 StderrBuffer \<and>
           ((\<forall>w' ev. emits sys w' ev StderrBuffer = []) \<longrightarrow>
              written w1 StderrBuffer = [] \<and> t1 = u @ '' - ''))) \<and>
   (ExecPipelineE sys cmds stdin stdout w = (Some t2, w2) \<longrightarrow>
      (cmds \<noteq> [] \<and>
       fst (connect sys cmds stdin stdout (Some StderrBuffer) (new_buffer StderrBuffer w)) = None \<longrightarrow>
         (\<forall>i<length cmds. Stderr (heap w2 (cmds ! i)) = Some StderrBuffer)) \<and>
      suffix (written w2 StderrBuffer) t2 \<and>
      (\<exists>u. fst (ExecPipeline sys cmds stdin stdout (Some StderrBuffer) (new_buffer StderrBuffer w)) = Some u \<and>
           t2 = u @ '' - '' @ written w2 StderrBuffer \<and>
           ((\<forall>w' ev. emits sys w' ev StderrBuffer = []) \<longrightarrow>
              written w2 StderrBuffer = [] \<and> t2 = u @ '' - '')))"
proof -
  have fmt: "suffix c t \<and> t = u @ '' - '' @ c \<and> (c = [] \<longrightarrow> t = u @ '' - '')"
    if "t = errorf_captured u c" for t u c :: string
  proof -
    from that have t: "t = (u @ '' - '') @ c" by (simp add: errorf_captured_def)
    then have "suffix c t" by (simp only: suffix_def) blast
    moreover from t have "c = [] \<longrightarrow> t = u @ '' - ''" by simp
    ultimately show ?thesis using t by simp
  qed
  have one: "Stderr (heap w1 cmd) = Some StderrBuffer \<and>
      suffix (written w1 StderrBuffer) t1 \<and>
      (\<exists>u. fst (Exec sys cmd stdin stdout (Some StderrBuffer) (new_buffer StderrBuffer w)) = Some u \<and>
           t1 = u @ '' - '' @ written w1 StderrBuffer \<and>
           ((\<forall>w' ev. emits sys w' ev StderrBuffer = []) \<longrightarrow>
              written w1 StderrBuffer = [] \<and> t1 = u @ '' - ''))"
    if run: "ExecE sys cmd stdin stdout w = (Some t1, w1)"
  proof -
    from ExecE_Some [OF run] obtain u
      where x: "Exec sys cmd stdin stdout (Some StderrBuffer) (new_buffer StderrBuffer w) = (Some u, w1)"
        and t: "t1 = errorf_captured u (written w1 StderrBuffer)"
      by blast
    have att: "Stderr (heap w1 cmd) = Some StderrBuffer"
      using Exec_streams [of sys cmd stdin stdout "Some StderrBuffer" "new_buffer StderrBuffer w"]
      by (simp add: x or_discard_def)
    have empty: "written w1 StderrBuffer = []" if q: "\<forall>w' ev. emits sys w' ev StderrBuffer = []"
      using Exec_quiet [OF q x] by simp
    from fmt [OF t] att empty x show ?thesis by auto
  qed
  have many: "(cmds \<noteq> [] \<and>
       fst (connect sys cmds stdin stdout (Some StderrBuffer) (new_buffer StderrBuffer w)) = None \<longrightarrow>
         (\<forall>i<length cmds. Stderr (heap w2 (cmds ! i)) = Some StderrBuffer)) \<and>
      suffix (written w2 StderrBuffer) t2 \<and>
      (\<exists>u. fst (ExecPipeline sys cmds stdin stdout (Some StderrBuffer) (new_buffer StderrBuffer w)) = Some u \<and>
           t2 = u @ '' - '' @ written w2 StderrBuffer \<and>
           ((\<forall>w' ev. emits sys w' ev StderrBuffer = []) \<longrightarrow>
              written w2 StderrBuffer = [] \<and> t2 = u @ '' - ''))"
    if run: "ExecPipelineE sys cmds stdin stdout w = (Some t2, w2)"
  proof -
    from ExecPipelineE_Some [OF run] obtain u
      where x: "ExecPipeline sys cmds stdin stdout (Some StderrBuffer) (new_buffer StderrBuffer w) = (Some u, w2)"
        and t: "t2 = errorf_captured u (written w2 StderrBuffer)"
      by blast
    have att: "\<forall>i<length cmds. Stderr (heap w2 (cmds ! i)) = Some StderrBuffer"
      if "cmds \<noteq> []"
        and "fst (connect sys cmds stdin stdout (Some StderrBuffer) (new_buffer StderrBuffer w)) = None"
      using ExecPipeline_destinations [OF x that] by (simp add: or_discard_def)
    have empty: "written w2 StderrBuffer = []" if q: "\<forall>w' ev. emits sys w' ev StderrBuffer = []"
      using ExecPipeline_quiet [OF q x] by simp
    from fmt [OF t] att empty x show ?thesis by auto
  qed
  from one many show ?thesis by blast
qed

theorem C8_captured_text_in_error_witness:
  "fst (ExecE sys_exit1 0 None None w0) = Some ''echo exit status 1 - boom'' \<and>
   Stderr (heap (snd (ExecE sys_exit1 0 None None w0)) 0) = Some StderrBuffer \<and>
   written (snd (ExecE sys_exit1 0 None None w0)) StderrBuffer = ''boom'' \<and>
   suffix ''boom'' ''echo exit status 1 - boom'' \<and>
   written (w0\<lparr>written := (\<lambda>s. ''stale'')\<rparr>) StderrBuffer = ''stale'' \<and>
   fst (ExecPipelineE sys_nostart [0, 1] None None (w0\<lparr>written := (\<lambda>s. ''stale'')\<rparr>)) =
     Some ''tr executable file not found - '' \<and>
   written (snd (ExecPipelineE sys_nostart [0, 1] None None (w0\<lparr>written := (\<lambda>s. ''stale'')\<rparr>)))
     StderrBuffer = [] \<and>
   Stderr (heap (snd (ExecPipelineE sys_nostart [0, 1] None None (w0\<lparr>written := (\<lambda>s. ''stale'')\<rparr>))) 0) =
     Some StderrBuffer"
proof -
  let ?ws = "w0\<lparr>written := (\<lambda>s. ''stale'')\<rparr>"
  let ?one = "ExecE sys_exit1 0 None None w0"
  let ?many = "ExecPipelineE sys_nostart [0, 1] None None ?ws"
  let ?under = "ExecPipeline sys_nostart [0, 1] None None (Some StderrBuffer) (new_buffer StderrBuffer ?ws)"
  have a: "fst ?one = Some ''echo exit status 1 - boom''"
    by (simp add: model_defs input_defs)
  have b: "written (snd ?one) StderrBuffer = ''boom''"
    by (simp add: model_defs input_defs)
  have c: "fst ?many = Some ''tr executable file not found - ''"
    by (simp add: model_defs input_defs)
  have q: "\<forall>w' ev. emits sys_nostart w' ev StderrBuffer = []"
    by (simp add: input_defs)
  have k: "[0, 1::nat] \<noteq> []" by simp
  have n: "fst (connect sys_nostart [0, 1] None None (Some StderrBuffer) (new_buffer StderrBuffer ?ws)) = None"
    by (simp add: model_defs input_defs)
  have pa: "?one = (Some ''echo exit status 1 - boom'', snd ?one)"
    using a by (metis prod.collapse)
  have pc: "?many = (Some ''tr executable file not found - '', snd ?many)"
    using c by (metis prod.collapse)
  note c8 = C8_captured_text_in_error [of sys_exit1 0 None None w0 "''echo exit status 1 - boom''"
      "snd ?one" "[0, 1]" "''x''" w0]
  note c8' = C8_captured_text_in_error [of sys_nostart 0 None None ?ws "''x''" w0
      "[0, 1]" "''tr executable file not found - ''" "snd ?many"]
  from c8 pa have s0: "suffix (written (snd ?one) StderrBuffer) ''echo exit status 1 - boom''"
    and e0: "Stderr (heap (snd ?one) 0) = Some StderrBuffer"
    by blast+
  from s0 have s: "suffix ''boom'' ''echo exit status 1 - boom''"
    by (simp only: b)
  from c8' pc q have d: "written (snd ?many) StderrBuffer = []"
    by blast
  from c8' pc k n have "\<forall>i<length [0, 1::nat]. Stderr (heap (snd ?many) ([0, 1] ! i)) = Some StderrBuffer"
    by blast
  then have e1: "Stderr (heap (snd ?many) 0) = Some StderrBuffer"
    by (simp add: All_less_Suc)
  have st: "written ?ws StderrBuffer = ''stale''" by simp
  show ?thesis using a b c d s e0 e1 st by (simp only: simp_thms)
qed

text \<open>
  C9.  \<^verbatim>\<open>ExecPipeline\<close> on the one command \<open>cmd\<close> and \<^verbatim>\<open>Exec\<close> on \<open>cmd\<close>, with the same streams
  and from the same state, return the same error, leave the same store (the same streams
  attached, the same process handle), make no pipe, and make the same \<^verbatim>\<open>Start\<close> and \<^verbatim>\<open>Wait\<close>
  calls.  The only difference in the calls made is that after a failed \<^verbatim>\<open>Wait\<close> the pipeline's
  deferred closure also sends \<^verbatim>\<open>SIGKILL\<close> to the process, already reaped, and waits on it.
\<close>

theorem C9_one_stage_pipeline_is_Exec:
  "fst (ExecPipeline sys [cmd] stdin stdout stderr w) = fst (Exec sys cmd stdin stdout stderr w) \<and>
   heap (snd (ExecPipeline sys [cmd] stdin stdout stderr w)) =
     heap (snd (Exec sys cmd stdin stdout stderr w)) \<and>
   pipes (snd (ExecPipeline sys [cmd] stdin stdout stderr w)) = pipes w \<and>
   pipes (snd (Exec sys cmd stdin stdout stderr w)) = pipes w \<and>
   start_calls (events_since w (snd (ExecPipeline sys [cmd] stdin stdout stderr w))) =
     start_calls (events_since w (snd (Exec sys cmd stdin stdout stderr w))) \<and>
   wait_calls (events_since w (snd (ExecPipeline sys [cmd] stdin stdout stderr w))) =
     wait_calls (events_since w (snd (Exec sys cmd stdin stdout stderr w))) \<and>
   trace (snd (ExecPipeline sys [cmd] stdin stdout stderr w)) =
     trace (snd (Exec sys cmd stdin stdout stderr w)) @
       (case last (trace (snd (Exec sys cmd stdin stdout stderr w))) of
          EvWait a (Some e) \<Rightarrow> [EvKill a, EvProcWait a]
        | _ \<Rightarrow> [])"
proof -
  define w3 where "w3 = set_Stderr cmd (Some (or_discard stderr))
      (set_Stdout cmd (Some (or_discard stdout))
        (if stdin \<noteq> None then set_Stdin cmd stdin w else w))"
  have t3: "trace w3 = trace w" and p3: "pipes w3 = pipes w" by (simp_all add: w3_def)
  have pipeline: "ExecPipeline sys [cmd] stdin stdout stderr w = run sys [cmd] None w3"
    by (simp add: ExecPipeline_def connect_single w3_def)
  have single: "Exec sys cmd stdin stdout stderr w =
      (case cmd_Start sys cmd w3 of
         (Some e, w4) \<Rightarrow> (Some (errorf_path (Path (heap w4 cmd)) e), w4)
       | (None, w4) \<Rightarrow>
           (case cmd_Wait sys cmd w4 of
              (Some e, w5) \<Rightarrow> (Some (errorf_path (Path (heap w5 cmd)) e), w5)
            | (None, w5) \<Rightarrow> (None, w5)))"
    by (simp add: Exec_def Let_def w3_def)
  obtain e1 w4 where s: "cmd_Start sys cmd w3 = (e1, w4)" by (cases "cmd_Start sys cmd w3")
  note se = cmd_Start_effect [OF s]
  show ?thesis
  proof (cases e1)
    case (Some e)
    with s have one: "Exec sys cmd stdin stdout stderr w = (Some (errorf_path (Path (heap w4 cmd)) e), w4)"
      by (simp add: single)
    from Some s have many: "run sys [cmd] None w3 = (Some (errorf_path (Path (heap w4 cmd)) e), w4)"
      by (simp add: run_def)
    show ?thesis
      by (simp add: pipeline one many se(1) se(2) t3 p3 Some events_since_def)
  next
    case None
    obtain e2 w5 where x: "cmd_Wait sys cmd w4 = (e2, w5)" by (cases "cmd_Wait sys cmd w4")
    note we = cmd_Wait_effect [OF x]
    have pr: "Process (heap w5 cmd) = Some Reaped"
      using se(7) [of cmd] we(7) [of cmd] None by simp
    have tr: "trace w5 = trace w @ [EvStart cmd None, EvWait cmd e2]"
      using se(1) we(1) t3 None by simp
    have pp: "pipes w5 = pipes w"
      using se(2) we(2) p3 by simp
    show ?thesis
    proof (cases e2)
      case (Some e)
      with None s x
      have one: "Exec sys cmd stdin stdout stderr w = (Some (errorf_path (Path (heap w5 cmd)) e), w5)"
        by (simp add: single)
      from Some None s x
      have many: "run sys [cmd] None w3 =
          (Some (errorf_path (Path (heap w5 cmd)) e), deferred_kill sys (Some e) cmd w5)"
        by (simp add: run_def)
      have pr': "Process (heap w5 cmd) \<noteq> None" using pr by simp
      have ne: "Some e \<noteq> None" by simp
      note dk = deferred_kill_effect(1) [OF ne pr', of sys]
      show ?thesis
        by (simp add: pipeline one many deferred_kill_reaped [OF pr] dk tr pp Some events_since_def)
    next
      case None2: None
      with None s x have one: "Exec sys cmd stdin stdout stderr w = (None, w5)"
        by (simp add: single)
      from None2 None s x have many: "run sys [cmd] None w3 = (None, w5)"
        by (simp add: run_def)
      show ?thesis
        by (simp add: pipeline one many tr pp None2 events_since_def)
    qed
  qed
qed

theorem C9_one_stage_pipeline_is_Exec_witness:
  "fst (ExecPipeline sys_exit1 [0] (Some (Extern 3)) None None w0) = Some ''echo exit status 1'' \<and>
   fst (Exec sys_exit1 0 (Some (Extern 3)) None None w0) = Some ''echo exit status 1'' \<and>
   heap (snd (ExecPipeline sys_exit1 [0] (Some (Extern 3)) None None w0)) 0 =
     \<lparr>Path = ''echo'', Stdin = Some (Extern 3), Stdout = Some Discard, Stderr = Some Discard,
      Process = Some Reaped\<rparr> \<and>
   heap (snd (Exec sys_exit1 0 (Some (Extern 3)) None None w0)) 0 =
     \<lparr>Path = ''echo'', Stdin = Some (Extern 3), Stdout = Some Discard, Stderr = Some Discard,
      Process = Some Reaped\<rparr> \<and>
   trace (snd (Exec sys_exit1 0 (Some (Extern 3)) None None w0)) =
     [EvStart 0 None, EvWait 0 (Some ''exit status 1'')] \<and>
   trace (snd (ExecPipeline sys_exit1 [0] (Some (Extern 3)) None None w0)) =
     [EvStart 0 None, EvWait 0 (Some ''exit status 1''), EvKill 0, EvProcWait 0]"
proof -
  note c9 = C9_one_stage_pipeline_is_Exec [of sys_exit1 0 "Some (Extern 3)" None None w0]
  have a: "fst (Exec sys_exit1 0 (Some (Extern 3)) None None w0) = Some ''echo exit status 1''"
    by (simp add: model_defs input_defs)
  have b: "heap (snd (Exec sys_exit1 0 (Some (Extern 3)) None None w0)) 0 =
     \<lparr>Path = ''echo'', Stdin = Some (Extern 3), Stdout = Some Discard, Stderr = Some Discard,
      Process = Some Reaped\<rparr>"
    by (simp add: model_defs input_defs)
  have c: "trace (snd (Exec sys_exit1 0 (Some (Extern 3)) None None w0)) =
     [EvStart 0 None, EvWait 0 (Some ''exit status 1'')]"
    by (simp add: model_defs input_defs)
  from c9 a b c show ?thesis by simp
qed





end
